theory Spec2Isabelle
  imports Complex_Main "HOL-Library.Log_Nat"
begin

section \<open>Python values\<close>

text \<open>
  A Python float is a finite number, an infinity or not-a-number. A finite binary64 value
  is a rational, so the finite floats are rationals here (the two zeros are one value).
  The comparisons are those of Python: every comparison with not-a-number is false, and
  the other values are ordered as extended numbers.
\<close>

datatype pyfloat = Num rat | PosInf | NegInf | NaN

fun tier :: "pyfloat \<Rightarrow> int" where
  "tier (Num q) = 0"
| "tier PosInf = 1"
| "tier NegInf = - 1"
| "tier NaN = 0"

fun magnitude :: "pyfloat \<Rightarrow> rat" where
  "magnitude (Num q) = q"
| "magnitude x = 0"

fun float_sign :: "pyfloat \<Rightarrow> int" where
  "float_sign (Num q) = (if 0 < q then 1 else if q < 0 then - 1 else 0)"
| "float_sign PosInf = 1"
| "float_sign NegInf = - 1"
| "float_sign NaN = 0"

text \<open>
  \<open>a < b\<close>, \<open>a <= b\<close> and \<open>a * b\<close> on floats. The product of two finite floats is
  taken exactly, without the rounding of binary64; an infinity times zero and every
  product with not-a-number is not-a-number.
\<close>

instantiation pyfloat :: "{ord, times}"
begin

definition less_pyfloat :: "pyfloat \<Rightarrow> pyfloat \<Rightarrow> bool" where
  "less_pyfloat a b =
     (a \<noteq> NaN \<and> b \<noteq> NaN \<and>
      (tier a < tier b \<or> (tier a = tier b \<and> magnitude a < magnitude b)))"

definition less_eq_pyfloat :: "pyfloat \<Rightarrow> pyfloat \<Rightarrow> bool" where
  "less_eq_pyfloat a b =
     (a \<noteq> NaN \<and> b \<noteq> NaN \<and>
      (tier a < tier b \<or> (tier a = tier b \<and> magnitude a \<le> magnitude b)))"

definition times_pyfloat :: "pyfloat \<Rightarrow> pyfloat \<Rightarrow> pyfloat" where
  "times_pyfloat a b =
     (if a = NaN \<or> b = NaN then NaN
      else if tier a = 0 \<and> tier b = 0 then Num (magnitude a * magnitude b)
      else if float_sign a * float_sign b = 0 then NaN
      else if 0 < float_sign a * float_sign b then PosInf
      else NegInf)"

instance ..

end

text \<open>The exceptions that the modelled code can raise outside a \<open>try\<close> block.\<close>

datatype py_error = OverflowError | ValueError | ZeroDivisionError

text \<open>
  A value decoded by \<open>json.loads\<close> (and a value of a \<open>dict[str, Any]\<close> read from the
  configuration) is one of the following; \<open>JNull\<close> is Python's \<open>None\<close>. A dict keeps its
  insertion order, so it is an association list; \<open>map_of\<close> is the lookup.
\<close>

datatype json =
    JNull
  | JBool bool
  | JInt int
  | JFloat pyfloat
  | JStr string
  | JList "json list"
  | JDict "(string \<times> json) list"

type_synonym pydict = "(string \<times> json) list"

text \<open>Truth value of a Python object, as \<open>or\<close>, \<open>if x\<close> and \<open>bool(x)\<close> read it.\<close>

fun truthy :: "json \<Rightarrow> bool" where
  "truthy JNull = False"
| "truthy (JBool b) = b"
| "truthy (JInt i) = (i \<noteq> 0)"
| "truthy (JFloat f) = (f \<noteq> Num 0)"
| "truthy (JStr s) = (s \<noteq> [])"
| "truthy (JList xs) = (xs \<noteq> [])"
| "truthy (JDict d) = (d \<noteq> [])"

text \<open>\<open>a or b\<close>: the left operand when it is truthy, the right operand otherwise.\<close>

definition py_or :: "json \<Rightarrow> json \<Rightarrow> json" where
  "py_or a b = (if truthy a then a else b)"

text \<open>\<open>d.get(k)\<close>: the value, or \<open>None\<close> for a missing key.\<close>

definition dict_get :: "pydict \<Rightarrow> string \<Rightarrow> json" where
  "dict_get d k = (case map_of d k of None \<Rightarrow> JNull | Some v \<Rightarrow> v)"

fun is_dict :: "json \<Rightarrow> bool" where
  "is_dict (JDict d) = True"
| "is_dict v = False"

text \<open>
  Functions of the Python runtime that the code calls and that are no part of the
  repository are parameters of the model. \<open>None\<close> stands for a raised exception.
  \<^item> \<open>json_loads\<close>: \<open>json.loads\<close> on the response text;
  \<^item> \<open>int_of_str\<close>: \<open>int(s)\<close> on a string (raises \<open>ValueError\<close>);
  \<^item> \<open>float_of_str\<close>: \<open>float(s)\<close> on a string (raises \<open>ValueError\<close>);
  \<^item> \<open>str_of\<close>: \<open>str(x)\<close> on a value that is not a string;
  \<^item> \<open>str_format\<close>: \<open>s.format(**ctx)\<close>.
\<close>

record pylib =
  json_loads :: "string \<Rightarrow> json option"
  int_of_str :: "string \<Rightarrow> int option"
  float_of_str :: "string \<Rightarrow> pyfloat option"
  str_of :: "json \<Rightarrow> string"
  str_format :: "string \<Rightarrow> pydict \<Rightarrow> string option"

text \<open>
  \<open>int(x)\<close>, with \<open>None\<close> for a raised exception: a bool is an int; a finite float is
  truncated towards zero, an infinity raises \<open>OverflowError\<close> and not-a-number
  \<open>ValueError\<close>; a string is parsed; \<open>None\<close>, a list and a dict raise \<open>TypeError\<close>.
\<close>

fun py_int :: "pylib \<Rightarrow> json \<Rightarrow> int option" where
  "py_int lib JNull = None"
| "py_int lib (JBool b) = Some (if b then 1 else 0)"
| "py_int lib (JInt i) = Some i"
| "py_int lib (JFloat (Num q)) = Some (if 0 \<le> q then \<lfloor>q\<rfloor> else \<lceil>q\<rceil>)"
| "py_int lib (JFloat PosInf) = None"
| "py_int lib (JFloat NegInf) = None"
| "py_int lib (JFloat NaN) = None"
| "py_int lib (JStr s) = int_of_str lib s"
| "py_int lib (JList xs) = None"
| "py_int lib (JDict d) = None"

text \<open>
  \<open>a / b\<close> on integers is the quotient rounded to the nearest binary64 value, ties to
  the even significand. For a positive quotient \<open>x\<close> with \<open>2^e \<le> x < 2^(e+1)\<close> the
  binary64 values around \<open>x\<close> are the multiples of \<open>2^(e - 52)\<close>, and the multiples of
  \<open>2^(- 1074)\<close> when \<open>e\<close> is below \<open>- 1022\<close>. The division raises \<open>OverflowError\<close>
  when the rounded quotient reaches \<open>2^1024\<close>, and \<open>ZeroDivisionError\<close> for a zero
  divisor.
\<close>

definition round_half_even :: "rat \<Rightarrow> int" where
  "round_half_even x =
     (let f = \<lfloor>x\<rfloor>; d = x - of_int f
      in if d < 1 / 2 then f else if 1 / 2 < d then f + 1 else if even f then f else f + 1)"

text \<open>The \<open>e\<close> with \<open>2^e \<le> a / b < 2^(e+1)\<close>, for positive \<open>a\<close> and \<open>b\<close>.\<close>

definition floor_log2 :: "int \<Rightarrow> int \<Rightarrow> int" where
  "floor_log2 a b =
     (let d = bitlen a - bitlen b
      in if (2 :: rat) powi d \<le> of_int a / of_int b then d else d - 1)"

definition binary64_quotient :: "int \<Rightarrow> int \<Rightarrow> rat" where
  "binary64_quotient a b =
     (let e = max (floor_log2 a b) (- 1022); u = (2 :: rat) powi (e - 52)
      in of_int (round_half_even (of_int a / of_int b / u)) * u)"

definition py_truediv :: "int \<Rightarrow> int \<Rightarrow> py_error + pyfloat" where
  "py_truediv a b =
     (if b = 0 then Inl ZeroDivisionError
      else if a = 0 then Inr (Num 0)
      else
        (let r = binary64_quotient \<bar>a\<bar> \<bar>b\<bar>
         in if 2 ^ 1024 \<le> r then Inl OverflowError
            else Inr (Num (if (a < 0) = (b < 0) then r else - r))))"

text \<open>
  \<open>math.ceil(x)\<close> on a float: an integer, \<open>OverflowError\<close> for an infinity and
  \<open>ValueError\<close> for not-a-number.
\<close>

fun math_ceil :: "pyfloat \<Rightarrow> py_error + int" where
  "math_ceil (Num q) = Inr \<lceil>q\<rceil>"
| "math_ceil PosInf = Inl OverflowError"
| "math_ceil NegInf = Inl OverflowError"
| "math_ceil NaN = Inl ValueError"

text \<open>\<open>str(x)\<close>: a string is itself.\<close>

definition py_str :: "pylib \<Rightarrow> json \<Rightarrow> string" where
  "py_str lib v = (case v of JStr s \<Rightarrow> s | _ \<Rightarrow> str_of lib v)"

text \<open>
  \<open>s.lower()\<close> on the letters \<open>A\<close> to \<open>Z\<close>; the other characters of a header name are
  left as they are.
\<close>

definition lower_char :: "char \<Rightarrow> char" where
  "lower_char c =
     (case map_of (zip ''ABCDEFGHIJKLMNOPQRSTUVWXYZ'' ''abcdefghijklmnopqrstuvwxyz'') c of
        Some l \<Rightarrow> l
      | None \<Rightarrow> c)"

definition lower :: "string \<Rightarrow> string" where
  "lower s = map lower_char s"

text \<open>\<open>s.strip()\<close>: white space is removed at both ends.\<close>

definition is_space :: "char \<Rightarrow> bool" where
  "is_space c = ((of_char c :: nat) \<in> {9, 10, 11, 12, 13, 28, 29, 30, 31, 32, 133, 160})"

definition strip :: "string \<Rightarrow> string" where
  "strip s = rev (dropWhile is_space (rev (dropWhile is_space s)))"

section \<open>Data model (bitpeer/models.py, bitpeer/common/config.py)\<close>

datatype side = BUY | SELL

text \<open>
  Several classes share field names (\<open>fiat\<close>, \<open>side\<close>, \<open>market\<close>, \<open>page\<close>). The
  unqualified name is the field of \<open>Offer\<close>, declared last; the others are written with
  their class, as in \<open>RawFetchRecord.page\<close>. The field \<open>method\<close> of the endpoint is
  \<open>http_method\<close> here.
\<close>

record RawFetchRecord =
  format_version :: string
  ts_utc :: int
  market :: string
  fiat :: string
  side :: side
  page :: int
  request_url :: string
  request_method :: string
  request_headers :: "(string \<times> string) list"
  request_body :: pydict
  http_status :: "int option"
  response_text :: "string option"
  error :: "string option"

record BybitP2PEndpoint =
  url :: string
  http_method :: string
  timeout_seconds :: int
  headers :: "(string \<times> string) list"
  body_template :: pydict

record MarketConfig =
  name :: string
  fiat :: string
  side :: side
  endpoint_side :: string

record CollectorConfig =
  interval_seconds :: int
  max_pages :: int
  min_offers_after_filter :: int

record AppConfig =
  collector :: CollectorConfig
  bybit_p2p_endpoint :: BybitP2PEndpoint
  markets :: "MarketConfig list"

record Offer =
  ts_utc :: int
  asset :: string
  fiat :: string
  side :: side
  price_fiat_per_usdt :: pyfloat
  min_fiat :: pyfloat
  max_fiat :: pyfloat
  payment_methods :: "string list"
  is_merchant :: "bool option"
  rating :: "pyfloat option"
  advertiser_key :: "string option"
  market :: "string option"
  page :: "int option"

section \<open>Price engine (bitpeer/metrics/best_price.py)\<close>

record Constraints =
  payment_methods_any :: "string set option"
  merchant_only :: bool
  min_rating :: pyfloat

text \<open>
  The result dataclass; its fields \<open>offer\<close> and \<open>price_fiat_per_usdt\<close> carry the prefix
  \<open>result_\<close> here, since the second name is already a field of \<open>Offer\<close>.
\<close>

datatype BestSingleResult =
  BestSingleResult (result_offer: Offer) (result_price_fiat_per_usdt: pyfloat)

text \<open>
  \<open>_passes_constraints\<close>: the three early returns in the order of the source.
  \<open>offer.is_merchant is not True\<close> holds for \<open>None\<close> and for \<open>False\<close>; a set is
  truthy when it is present and not empty.
\<close>

definition passes_constraints :: "Offer \<Rightarrow> Constraints \<Rightarrow> bool" where
  "passes_constraints offer c =
     (if merchant_only c \<and> is_merchant offer \<noteq> Some True then False
      else if (case rating offer of None \<Rightarrow> False | Some r \<Rightarrow> r < min_rating c) then False
      else (case payment_methods_any c of
              None \<Rightarrow> True
            | Some accepted \<Rightarrow>
                if accepted \<noteq> {} then
                  (if \<not> list_ex (\<lambda>m. m \<in> accepted) (payment_methods offer) then False
                   else True)
                else True))"

definition executable_for_fiat_amount :: "Offer \<Rightarrow> pyfloat \<Rightarrow> bool" where
  "executable_for_fiat_amount offer amount_fiat =
     (min_fiat offer \<le> amount_fiat \<and> amount_fiat \<le> max_fiat offer)"

definition executable_for_usdt_amount :: "Offer \<Rightarrow> pyfloat \<Rightarrow> bool" where
  "executable_for_usdt_amount offer amount_usdt =
     (let amount_fiat = amount_usdt * price_fiat_per_usdt offer
      in min_fiat offer \<le> amount_fiat \<and> amount_fiat \<le> max_fiat offer)"

text \<open>
  Python's \<open>min(xs, key=f)\<close> and \<open>max(xs, key=f)\<close> on a non-empty list: the first
  element is the running best, and a later element replaces it only when its key is
  strictly smaller (strictly greater for \<open>max\<close>). The keys are only compared, so a
  key that is not-a-number is never smaller or greater and never replaces, nor is
  replaced by, another one.
\<close>

fun py_min_by :: "('a \<Rightarrow> 'k::ord) \<Rightarrow> 'a \<Rightarrow> 'a list \<Rightarrow> 'a" where
  "py_min_by key best [] = best"
| "py_min_by key best (x # xs) = py_min_by key (if key x < key best then x else best) xs"

fun py_max_by :: "('a \<Rightarrow> 'k::ord) \<Rightarrow> 'a \<Rightarrow> 'a list \<Rightarrow> 'a" where
  "py_max_by key best [] = best"
| "py_max_by key best (x # xs) = py_max_by key (if key x > key best then x else best) xs"

text \<open>The body of the \<open>for offer in offers\<close> loop: does the offer reach \<open>candidates.append\<close>?\<close>

definition is_candidate :: "string \<Rightarrow> pyfloat \<Rightarrow> Constraints \<Rightarrow> Offer \<Rightarrow> bool" where
  "is_candidate direction amount constraints offer =
     (if \<not> passes_constraints offer constraints then False
      else if direction = ''buy_usdt'' then
        (if side offer \<noteq> SELL then False
         else if \<not> executable_for_fiat_amount offer amount then False
         else True)
      else
        (if side offer \<noteq> BUY then False
         else if \<not> executable_for_usdt_amount offer amount then False
         else True))"

definition best_single :: "Offer list \<Rightarrow> string \<Rightarrow> pyfloat \<Rightarrow> Constraints \<Rightarrow> BestSingleResult option" where
  "best_single offers direction amount constraints =
     (let candidates = filter (is_candidate direction amount constraints) offers
      in case candidates of
           [] \<Rightarrow> None
         | c # cs \<Rightarrow>
             (let best = (if direction = ''buy_usdt''
                          then py_min_by price_fiat_per_usdt c cs
                          else py_max_by price_fiat_per_usdt c cs)
              in Some (BestSingleResult best (price_fiat_per_usdt best))))"

section \<open>Collector (bitpeer/collector/bybit_p2p.py)\<close>

definition SENSITIVE_HEADERS :: "string set" where
  "SENSITIVE_HEADERS =
     {''authorization'', ''cookie'', ''x-api-key'', ''x-csrf-token'', ''guid'', ''risktoken'',
      ''traceparent''}"

text \<open>\<open>_sanitize_headers\<close>: the dict comprehension keeps the entries in their order.\<close>

definition sanitize_headers :: "(string \<times> string) list \<Rightarrow> (string \<times> string) list" where
  "sanitize_headers hs = filter (\<lambda>(k, v). lower k \<notin> SENSITIVE_HEADERS) hs"

text \<open>
  \<open>_substitute_placeholders\<close>: a string is formatted, and stays as it is when
  \<open>format\<close> raises; lists and dicts are rebuilt; any other value is returned.
\<close>

fun substitute_placeholders :: "pylib \<Rightarrow> pydict \<Rightarrow> json \<Rightarrow> json" where
  "substitute_placeholders lib ctx (JStr s) =
     (case str_format lib s ctx of Some t \<Rightarrow> JStr t | None \<Rightarrow> JStr s)"
| "substitute_placeholders lib ctx (JList vs) =
     JList (map (substitute_placeholders lib ctx) vs)"
| "substitute_placeholders lib ctx (JDict d) =
     JDict (map (\<lambda>(k, v). (k, substitute_placeholders lib ctx v)) d)"
| "substitute_placeholders lib ctx v = v"

text \<open>The name of a market side, as the string put into the placeholder context.\<close>

fun side_str :: "side \<Rightarrow> string" where
  "side_str BUY = ''BUY''"
| "side_str SELL = ''SELL''"

definition build_body :: "pylib \<Rightarrow> pydict \<Rightarrow> string \<Rightarrow> string \<Rightarrow> string \<Rightarrow> int \<Rightarrow> pydict" where
  "build_body lib template fiat_arg side_arg endpoint_side_arg page_arg =
     (let ctx = [(''fiat'', JStr fiat_arg), (''side'', JStr side_arg),
                 (''endpoint_side'', JStr endpoint_side_arg), (''page'', JInt page_arg)]
      in case substitute_placeholders lib ctx (JDict template) of
           JDict d \<Rightarrow> d
         | _ \<Rightarrow> [])"

text \<open>
  The HTTP client. One call of \<open>client.request\<close> either raises (\<open>Inl\<close>, carrying the
  \<open>repr\<close> of the exception) or completes with a response (\<open>Inr\<close>); the answer may differ
  from one attempt to the next, so the client also takes the number of the attempt.
  The field \<open>resp_text\<close> is \<open>resp.text\<close>.
\<close>

record Response =
  resp_text :: string
  status_code :: int

type_synonym client =
  "string \<Rightarrow> string \<Rightarrow> (string \<times> string) list \<Rightarrow> pydict \<Rightarrow> nat \<Rightarrow> string + Response"

text \<open>
  \<open>_request\<close> under \<open>@retry(stop=stop_after_attempt(3), reraise=True)\<close>: at most three
  attempts, the first response is returned, and after the third failure the last
  exception is raised again. The waiting between attempts is not modelled.
\<close>

definition request :: "client \<Rightarrow> string \<Rightarrow> string \<Rightarrow> (string \<times> string) list \<Rightarrow> pydict \<Rightarrow> string + Response" where
  "request cl meth u hs json_body =
     (case cl meth u hs json_body 0 of
        Inr resp \<Rightarrow> Inr resp
      | Inl e0 \<Rightarrow>
          (case cl meth u hs json_body 1 of
             Inr resp \<Rightarrow> Inr resp
           | Inl e1 \<Rightarrow> cl meth u hs json_body 2))"

text \<open>
  \<open>fetch_market_page\<close>. The \<open>try\<close> block sets \<open>text\<close>, \<open>status\<close> and \<open>err\<close> from the
  response; the \<open>except Exception\<close> block sets them from the exception. \<open>now\<close> is the
  value of \<open>datetime.now(UTC)\<close>.
\<close>

definition fetch_market_page :: "pylib \<Rightarrow> client \<Rightarrow> int \<Rightarrow> AppConfig \<Rightarrow> MarketConfig \<Rightarrow> int \<Rightarrow> RawFetchRecord" where
  "fetch_market_page lib cl now cfg mkt page_no =
     (let endpoint = bybit_p2p_endpoint cfg;
          request_headers_v = headers endpoint;
          request_body_v = build_body lib (body_template endpoint) (MarketConfig.fiat mkt)
                             (side_str (MarketConfig.side mkt)) (endpoint_side mkt) page_no;
          ts = now;
          (text_v, status, err) =
             (case request cl (http_method endpoint) (url endpoint) request_headers_v request_body_v of
                Inr resp \<Rightarrow> (Some (resp_text resp), Some (status_code resp), None)
              | Inl e \<Rightarrow> (None, None, Some e))
      in \<lparr> format_version = ''rawfetch-v1'',
           RawFetchRecord.ts_utc = ts,
           RawFetchRecord.market = name mkt,
           RawFetchRecord.fiat = MarketConfig.fiat mkt,
           RawFetchRecord.side = MarketConfig.side mkt,
           RawFetchRecord.page = page_no,
           request_url = url endpoint,
           request_method = http_method endpoint,
           request_headers = sanitize_headers request_headers_v,
           request_body = request_body_v,
           http_status = status,
           response_text = text_v,
           error = err \<rparr>)"

text \<open>
  \<open>_derive_total_pages\<close>. Each \<open>return 1\<close> of the source is a branch here. The last
  statement, \<open>max(1, math.ceil(total_count / page_size))\<close>, stands outside the two
  \<open>try\<close> blocks, so an exception of the division or of \<open>math.ceil\<close> leaves the
  function: the result is the exception (\<open>Inl\<close>) or the number of pages (\<open>Inr\<close>).
\<close>

definition derive_total_pages :: "pylib \<Rightarrow> RawFetchRecord \<Rightarrow> py_error + int" where
  "derive_total_pages lib record =
     (case response_text record of
        None \<Rightarrow> Inr 1
      | Some body \<Rightarrow>
          if body = [] then Inr 1
          else
            (case json_loads lib body of
               None \<Rightarrow> Inr 1
             | Some payload \<Rightarrow>
                 (let result = (case payload of JDict d \<Rightarrow> dict_get d ''result'' | _ \<Rightarrow> JNull)
                  in case result of
                       JDict res \<Rightarrow>
                         (let count_raw = dict_get res ''count''
                          in case py_int lib count_raw of
                               None \<Rightarrow> Inr 1
                             | Some total_count \<Rightarrow>
                                 (let size_raw = (case map_of (request_body record) ''size'' of
                                                    None \<Rightarrow> JInt 10
                                                  | Some v \<Rightarrow> v);
                                      page_size = (case py_int lib size_raw of
                                                     None \<Rightarrow> 10
                                                   | Some n \<Rightarrow> max n 1)
                                  in case py_truediv total_count page_size of
                                       Inl e \<Rightarrow> Inl e
                                     | Inr q \<Rightarrow>
                                         (case math_ceil q of
                                            Inl e \<Rightarrow> Inl e
                                          | Inr pages \<Rightarrow> Inr (max 1 pages))))
                     | _ \<Rightarrow> Inr 1)))"

text \<open>
  \<open>collect_once\<close>, for one market and for all of them. The raw store is the list of the
  records appended so far. The pages from 2 on are fetched as concurrent tasks and stored
  as they complete; the model stores them in page order, which is one of the possible
  orders and the same set of records. \<open>collect_market\<close> is one round of the loop over
  the markets: the records it stores, and the exception that ends the cycle when
  \<open>_derive_total_pages\<close> raises one, after page 1 has been stored.
\<close>

definition pages_to_fetch :: "int \<Rightarrow> int \<Rightarrow> int" where
  "pages_to_fetch total_pages max_pages_v =
     (let safety_cap = 200
      in if max_pages_v > 0 then min (min total_pages max_pages_v) safety_cap
         else min total_pages safety_cap)"

definition collect_market :: "pylib \<Rightarrow> client \<Rightarrow> int \<Rightarrow> AppConfig \<Rightarrow> MarketConfig \<Rightarrow> RawFetchRecord list \<times> py_error option" where
  "collect_market lib cl now cfg mkt =
     (let first = fetch_market_page lib cl now cfg mkt 1
      in case derive_total_pages lib first of
           Inl e \<Rightarrow> ([first], Some e)
         | Inr total_pages \<Rightarrow>
             (let n = pages_to_fetch total_pages (max_pages (collector cfg))
              in if n \<le> 1 then ([first], None)
                 else (first # map (fetch_market_page lib cl now cfg mkt) [2..n], None)))"

text \<open>The loop over the markets stops at the first market that raises.\<close>

fun collect_markets :: "pylib \<Rightarrow> client \<Rightarrow> int \<Rightarrow> AppConfig \<Rightarrow> MarketConfig list \<Rightarrow> RawFetchRecord list \<Rightarrow> RawFetchRecord list \<times> py_error option" where
  "collect_markets lib cl now cfg [] store = (store, None)"
| "collect_markets lib cl now cfg (mkt # mkts) store =
     (case collect_market lib cl now cfg mkt of
        (records, Some e) \<Rightarrow> (store @ records, Some e)
      | (records, None) \<Rightarrow> collect_markets lib cl now cfg mkts (store @ records))"

definition collect_once :: "pylib \<Rightarrow> client \<Rightarrow> int \<Rightarrow> AppConfig \<Rightarrow> RawFetchRecord list \<Rightarrow> RawFetchRecord list \<times> py_error option" where
  "collect_once lib cl now cfg store = collect_markets lib cl now cfg (markets cfg) store"

section \<open>Extractor (bitpeer/parser/bybit_p2p.py)\<close>

text \<open>
  \<open>_to_float\<close>. \<open>isinstance(value, (int, float))\<close> holds for a bool as well, and the
  \<open>float\<close> of an integer is taken exactly; a string loses its commas and the white space
  at its ends before \<open>float\<close> parses it, and a \<open>ValueError\<close> gives \<open>None\<close>.
\<close>

fun to_float :: "pylib \<Rightarrow> json \<Rightarrow> pyfloat option" where
  "to_float lib JNull = None"
| "to_float lib (JBool b) = Some (Num (if b then 1 else 0))"
| "to_float lib (JInt i) = Some (Num (of_int i))"
| "to_float lib (JFloat f) = Some f"
| "to_float lib (JStr s) = float_of_str lib (strip (filter (\<lambda>c. c \<noteq> CHR '','') s))"
| "to_float lib (JList xs) = None"
| "to_float lib (JDict d) = None"

text \<open>\<open>_first_present\<close>: the value under the first key of \<open>keys\<close> that the dict has.\<close>

fun first_present :: "pydict \<Rightarrow> string list \<Rightarrow> json" where
  "first_present d [] = JNull"
| "first_present d (k # keys) =
     (case map_of d k of Some v \<Rightarrow> v | None \<Rightarrow> first_present d keys)"

text \<open>\<open>_maybe_dict\<close>: the value when it is a dict, \<open>None\<close> otherwise.\<close>

fun maybe_dict :: "json \<Rightarrow> json" where
  "maybe_dict (JDict d) = JDict d"
| "maybe_dict v = JNull"

text \<open>The entries of a value known to be a dict.\<close>

fun dict_items :: "json \<Rightarrow> pydict" where
  "dict_items (JDict d) = d"
| "dict_items v = []"

definition PRICE_KEYS :: "string list" where
  "PRICE_KEYS = [''price'', ''unitPrice'', ''priceValue'', ''rate'', ''unit_price'']"

definition MIN_KEYS :: "string list" where
  "MIN_KEYS = [''minAmount'', ''minFiat'', ''minOrderAmount'', ''min'', ''min_amount'']"

definition MAX_KEYS :: "string list" where
  "MAX_KEYS = [''maxAmount'', ''maxFiat'', ''maxOrderAmount'', ''max'', ''max_amount'']"

definition PAYMENT_KEYS :: "string list" where
  "PAYMENT_KEYS = [''payment'', ''payments'', ''paymentMethods'', ''payment_methods'', ''payMethods'']"

definition MERCHANT_KEYS :: "string list" where
  "MERCHANT_KEYS = [''isMerchant'', ''merchant'', ''is_merchant'']"

definition RATING_KEYS :: "string list" where
  "RATING_KEYS = [''rating'', ''userRating'', ''user_rating'', ''score'']"

definition ADVERTISER_KEYS :: "string list" where
  "ADVERTISER_KEYS = [''userId'', ''uid'', ''advertiserId'', ''advertiser_id'', ''nickName'', ''nickname'']"

definition looks_like_offer :: "pydict \<Rightarrow> bool" where
  "looks_like_offer d =
     (let keys = set (map fst d)
      in if keys \<inter> set PRICE_KEYS \<noteq> {} then True
         else if ''adv'' \<in> keys \<or> ''advertiser'' \<in> keys then True
         else False)"

text \<open>\<open>[x for x in obj if isinstance(x, dict)]\<close>\<close>

fun dicts_of :: "json list \<Rightarrow> pydict list" where
  "dicts_of [] = []"
| "dicts_of (JDict d # xs) = d # dicts_of xs"
| "dicts_of (v # xs) = dicts_of xs"

text \<open>
  The loops \<open>for x in ...: res = find(x, depth - 1); if res is not None: return res\<close>
  return the first result that is not \<open>None\<close>.
\<close>

fun first_some :: "'a option list \<Rightarrow> 'a option" where
  "first_some [] = None"
| "first_some (Some r # rs) = Some r"
| "first_some (None # rs) = first_some rs"

text \<open>
  The test of \<open>find\<close> on a non-empty list: the first three elements are dicts, and at least
  two of the first five dicts of the list look like offers. The result is the list of the
  dicts when the test passes.
\<close>

definition accept_list :: "json list \<Rightarrow> pydict list option" where
  "accept_list obj =
     (if list_all is_dict (take (min 3 (length obj)) obj) then
        (let dicts = dicts_of obj
         in if dicts \<noteq> [] \<and>
               length (filter looks_like_offer (take (min 5 (length dicts)) dicts)) \<ge> 2
            then Some dicts else None)
      else None)"

text \<open>
  The inner function \<open>find\<close>; \<open>depth\<close> starts at 6 and goes down by one in each call, so
  it is a natural number and \<open>depth <= 0\<close> is \<open>depth = 0\<close>.
\<close>

fun find_depth :: "nat \<Rightarrow> json \<Rightarrow> pydict list option" where
  "find_depth 0 obj = None"
| "find_depth (Suc depth) (JList obj) =
     (if obj \<noteq> [] then
        (case accept_list obj of
           Some dicts \<Rightarrow> Some dicts
         | None \<Rightarrow> first_some (map (find_depth depth) obj))
      else None)"
| "find_depth (Suc depth) (JDict d) = first_some (map (find_depth depth) (map snd d))"
| "find_depth (Suc depth) v = None"

text \<open>The well-known shapes: \<open>payload["result"][key]\<close> for the four keys, in their order.\<close>

fun well_known :: "pydict \<Rightarrow> string list \<Rightarrow> pydict list option" where
  "well_known result [] = None"
| "well_known result (key # keys) =
     (case dict_get result key of
        JList v \<Rightarrow>
          if v \<noteq> [] \<and> list_all is_dict (take (min 3 (length v)) v) then Some (dicts_of v)
          else well_known result keys
      | _ \<Rightarrow> well_known result keys)"

definition extract_offer_items :: "json \<Rightarrow> pydict list" where
  "extract_offer_items payload =
     (let shaped =
        (case payload of
           JDict p \<Rightarrow>
             (case dict_get p ''result'' of
                JDict result \<Rightarrow> well_known result [''items'', ''data'', ''list'', ''rows'']
              | _ \<Rightarrow> None)
         | _ \<Rightarrow> None)
      in case shaped of
           Some items \<Rightarrow> items
         | None \<Rightarrow> (case find_depth 6 payload of Some found \<Rightarrow> found | None \<Rightarrow> []))"

text \<open>The loop \<open>for m in methods: if m not in out: out.append(m)\<close>.\<close>

fun dedupe :: "string list \<Rightarrow> string list \<Rightarrow> string list" where
  "dedupe out [] = out"
| "dedupe out (m # ms) = dedupe (if m \<notin> set out then out @ [m] else out) ms"

text \<open>
  What one element \<open>p\<close> of a payment list adds to \<open>methods\<close>: a string is added as it
  is, a dict adds the \<open>str\<close> of its first truthy name-like field, anything else nothing.
\<close>

fun payment_entry :: "pylib \<Rightarrow> json \<Rightarrow> string list" where
  "payment_entry lib (JStr s) = [s]"
| "payment_entry lib (JDict p) =
     (let nm = py_or (py_or (py_or (py_or (dict_get p ''name'') (dict_get p ''paymentMethodName''))
                                   (dict_get p ''identifier''))
                            (dict_get p ''id''))
                     (dict_get p ''key'')
      in if truthy nm then [py_str lib nm] else [])"
| "payment_entry lib v = []"

definition extract_payment_methods :: "pylib \<Rightarrow> pydict \<Rightarrow> string list" where
  "extract_payment_methods lib item =
     (let raw = first_present item PAYMENT_KEYS;
          methods = (case raw of
                       JList ps \<Rightarrow> concat (map (payment_entry lib) ps)
                     | JDict rd \<Rightarrow> map fst rd
                     | _ \<Rightarrow> [])
      in dedupe [] methods)"

text \<open>
  The first two statements of the loop \<open>for item in items\<close> of \<open>parse_raw_fetch\<close>:
  the sub-objects \<open>adv\<close> and \<open>advertiser\<close> of the item. An empty dict is falsy, so
  the \<open>or\<close> passes over it.
\<close>

definition item_adv :: "pydict \<Rightarrow> pydict" where
  "item_adv item =
     dict_items (py_or (py_or (maybe_dict (dict_get item ''adv''))
                              (maybe_dict (dict_get item ''advertisement'')))
                       (JDict []))"

definition item_advertiser :: "pydict \<Rightarrow> pydict" where
  "item_advertiser item =
     dict_items (py_or (py_or (maybe_dict (dict_get item ''advertiser''))
                              (maybe_dict (dict_get item ''user'')))
                       (JDict []))"

text \<open>
  The rest of the loop body: \<open>None\<close> is the \<open>continue\<close> that drops the item,
  \<open>Some\<close> the offer appended to \<open>offers\<close>.
\<close>

definition parse_item :: "pylib \<Rightarrow> RawFetchRecord \<Rightarrow> pydict \<Rightarrow> Offer option" where
  "parse_item lib record item =
     (let adv = item_adv item;
          advertiser = item_advertiser item;
          price_v = to_float lib (py_or (first_present adv PRICE_KEYS) (first_present item PRICE_KEYS));
          min_fiat_v = to_float lib (py_or (first_present adv MIN_KEYS) (first_present item MIN_KEYS));
          max_fiat_v = to_float lib (py_or (first_present adv MAX_KEYS) (first_present item MAX_KEYS))
      in case (price_v, min_fiat_v, max_fiat_v) of
           (Some pr, Some mn, Some mx) \<Rightarrow>
             (let is_merchant_raw = py_or (first_present advertiser MERCHANT_KEYS)
                                          (first_present item MERCHANT_KEYS);
                  is_merchant_v = (if is_merchant_raw \<noteq> JNull then Some (truthy is_merchant_raw)
                                   else None);
                  rating_raw = py_or (first_present advertiser RATING_KEYS)
                                     (first_present item RATING_KEYS);
                  rating_v = to_float lib rating_raw;
                  advertiser_key_raw = py_or (first_present advertiser ADVERTISER_KEYS)
                                             (first_present item ADVERTISER_KEYS);
                  advertiser_key_v = (if advertiser_key_raw \<noteq> JNull
                                      then Some (py_str lib advertiser_key_raw) else None)
              in Some \<lparr> ts_utc = RawFetchRecord.ts_utc record,
                        asset = ''USDT'',
                        fiat = RawFetchRecord.fiat record,
                        side = RawFetchRecord.side record,
                        price_fiat_per_usdt = pr,
                        min_fiat = mn,
                        max_fiat = mx,
                        payment_methods = extract_payment_methods lib item,
                        is_merchant = is_merchant_v,
                        rating = rating_v,
                        advertiser_key = advertiser_key_v,
                        market = Some (RawFetchRecord.market record),
                        page = Some (RawFetchRecord.page record) \<rparr>)
         | _ \<Rightarrow> None)"

definition parse_raw_fetch :: "pylib \<Rightarrow> RawFetchRecord \<Rightarrow> Offer list" where
  "parse_raw_fetch lib record =
     (case response_text record of
        None \<Rightarrow> []
      | Some body \<Rightarrow>
          if body = [] then []
          else
            (case json_loads lib body of
               None \<Rightarrow> []
             | Some payload \<Rightarrow>
                 List.map_filter (parse_item lib record) (extract_offer_items payload)))"

section \<open>The conditions of the specification\<close>

text \<open>
  The two conditions under which the specification lets an offer take part in the
  selection, in its own words: an offer to acquire from passes the constraints, is on the
  SELL side and has the fiat amount in its window; an offer to dispose to passes the
  constraints, is on the BUY side and has the amount, converted at its own price, in its
  window.
\<close>

definition spec_acquire_ok :: "pyfloat \<Rightarrow> Constraints \<Rightarrow> Offer \<Rightarrow> bool" where
  "spec_acquire_ok amount c x =
     (passes_constraints x c \<and> side x = SELL \<and> min_fiat x \<le> amount \<and> amount \<le> max_fiat x)"

definition spec_dispose_ok :: "pyfloat \<Rightarrow> Constraints \<Rightarrow> Offer \<Rightarrow> bool" where
  "spec_dispose_ok amount c x =
     (passes_constraints x c \<and> side x = BUY \<and>
      min_fiat x \<le> amount * price_fiat_per_usdt x \<and> amount * price_fiat_per_usdt x \<le> max_fiat x)"

text \<open>
  The lookup of a canonical field as the specification words it: the value under the first
  key of the ordered alias list that is present, in the nested sub-object whenever that
  holds any key of the list, and in the item itself otherwise.
\<close>

definition spec_first_key :: "pydict \<Rightarrow> string list \<Rightarrow> string option" where
  "spec_first_key d keys = find (\<lambda>k. map_of d k \<noteq> None) keys"

definition spec_lookup :: "pydict \<Rightarrow> pydict \<Rightarrow> string list \<Rightarrow> json" where
  "spec_lookup sub item keys =
     (case spec_first_key sub keys of
        Some k \<Rightarrow> dict_get sub k
      | None \<Rightarrow> (case spec_first_key item keys of Some k \<Rightarrow> dict_get item k | None \<Rightarrow> JNull))"

text \<open>
  The page bound of the specification: the least of the derived total, the manual cap when
  it is positive, and the safety cap of 200.
\<close>

definition spec_page_bound :: "int \<Rightarrow> int \<Rightarrow> int" where
  "spec_page_bound derived_total manual_cap =
     (if manual_cap > 0 then Min {derived_total, manual_cap, 200} else Min {derived_total, 200})"

text \<open>
  The page size of the specification: the \<open>size\<close> field of the request body, 10 when the
  field is absent or is not a number, and never less than 1.
\<close>

definition spec_page_size :: "pylib \<Rightarrow> RawFetchRecord \<Rightarrow> int" where
  "spec_page_size lib record =
     (case map_of (request_body record) ''size'' of
        None \<Rightarrow> 10
      | Some v \<Rightarrow> (case py_int lib v of None \<Rightarrow> 10 | Some n \<Rightarrow> max 1 n))"

section \<open>Example inputs\<close>

definition demo_offer :: "side \<Rightarrow> pyfloat \<Rightarrow> rat \<Rightarrow> rat \<Rightarrow> string list \<Rightarrow> bool option \<Rightarrow> rat option \<Rightarrow> Offer" where
  "demo_offer sd pr mn mx pms merch rt =
     \<lparr> ts_utc = 0, asset = ''USDT'', fiat = ''VND'', side = sd, price_fiat_per_usdt = pr,
       min_fiat = Num mn, max_fiat = Num mx, payment_methods = pms, is_merchant = merch,
       rating = map_option Num rt, advertiser_key = None, market = None, page = None \<rparr>"

definition no_constraints :: Constraints where
  "no_constraints =
     \<lparr> payment_methods_any = None, merchant_only = False, min_rating = Num 0 \<rparr>"

definition demo_strict :: Constraints where
  "demo_strict =
     \<lparr> payment_methods_any = Some {''cash''}, merchant_only = True, min_rating = Num 5 \<rparr>"

definition demo_offers :: "Offer list" where
  "demo_offers =
     [demo_offer SELL (Num 3) 50 200 [] None None, demo_offer BUY (Num 5) 50 200 [] None None,
      demo_offer SELL (Num 2) 50 200 [] None None,
      demo_offer SELL (Num 2) 50 200 [''bank''] None None,
      demo_offer BUY (Num 7) 50 200 [] None None,
      demo_offer BUY (Num 7) 50 200 [''cash''] None None,
      demo_offer SELL (Num 1) 500 900 [] None None]"

text \<open>Two offers to acquire from; the first one has a price that is not a number.\<close>

definition demo_offers_nan :: "Offer list" where
  "demo_offers_nan =
     [demo_offer SELL NaN 50 200 [] None None, demo_offer SELL (Num 2) 50 200 [] None None]"

text \<open>
  A runtime that knows three response texts and the strings of the example
  configuration, and the same runtime with a decoder that finds a given count in every
  response text.
\<close>

definition demo_body_whole :: string where
  \<open>demo_body_whole = ''{"result": {"count": 25}}''\<close>

definition demo_body_fraction :: string where
  \<open>demo_body_fraction = ''{"result": {"count": 20.5}}''\<close>

definition demo_body_zero_min :: string where
  \<open>demo_body_zero_min =
     ''{"result": {"items": [{"adv": {"price": 30, "minAmount": 0, "maxAmount": 500}}]}}''\<close>

text \<open>
  Items: the three required fields in the \<open>adv\<close> sub-object with a minimum of 0, the
  same fields at the top level, an item whose \<open>adv\<close> sub-object also holds payment
  methods and a merchant flag, and an item whose advertiser is no merchant.
\<close>

definition demo_item_zero_nested :: pydict where
  "demo_item_zero_nested =
     [(''adv'', JDict [(''price'', JInt 30), (''minAmount'', JInt 0), (''maxAmount'', JInt 500)])]"

definition demo_item_zero_top :: pydict where
  "demo_item_zero_top = [(''price'', JInt 30), (''minAmount'', JInt 0), (''maxAmount'', JInt 500)]"

definition demo_item_nested :: pydict where
  "demo_item_nested =
     [(''adv'', JDict [(''price'', JStr ''30.5''), (''minAmount'', JInt 100),
                       (''maxAmount'', JInt 500), (''payments'', JList [JStr ''bank'']),
                       (''isMerchant'', JBool True)])]"

definition demo_item_no_merchant :: pydict where
  "demo_item_no_merchant =
     [(''price'', JInt 30), (''minAmount'', JInt 100), (''maxAmount'', JInt 500),
      (''advertiser'', JDict [(''isMerchant'', JBool False), (''nickName'', JStr ''ann'')])]"

definition demo_lib :: pylib where
  "demo_lib =
     \<lparr> json_loads = (\<lambda>s.
         if s = demo_body_whole then Some (JDict [(''result'', JDict [(''count'', JInt 25)])])
         else if s = demo_body_fraction
           then Some (JDict [(''result'', JDict [(''count'', JFloat (Num (41 / 2)))])])
         else if s = demo_body_zero_min
           then Some (JDict [(''result'', JDict [(''items'', JList [JDict demo_item_zero_nested])])])
         else None),
       int_of_str = (\<lambda>s. if s = ''10'' then Some 10 else None),
       float_of_str = (\<lambda>s. if s = ''30.5'' then Some (Num (61 / 2))
                           else if s = ''NaN'' then Some NaN else None),
       str_of = (\<lambda>v. []),
       str_format = (\<lambda>s ctx. if s = ''10'' then Some ''10'' else None) \<rparr>"

definition demo_lib_count :: "json \<Rightarrow> pylib" where
  "demo_lib_count count_v =
     demo_lib \<lparr> json_loads := (\<lambda>s. Some (JDict [(''result'', JDict [(''count'', count_v)])])) \<rparr>"


definition demo_huge_count :: int where
  "demo_huge_count = 10 ^ 400"

definition demo_endpoint :: BybitP2PEndpoint where
  "demo_endpoint =
     \<lparr> url = ''https://example.test/p2p'', http_method = ''POST'', timeout_seconds = 20,
       headers = [(''Cookie'', ''secret''), (''Accept'', ''application/json''),
                  (''riskToken'', ''token'')],
       body_template = [(''size'', JStr ''10'')] \<rparr>"

definition demo_market :: MarketConfig where
  "demo_market = \<lparr> name = ''VND_SELL'', fiat = ''VND'', side = SELL, endpoint_side = ''1'' \<rparr>"

definition demo_cfg :: AppConfig where
  "demo_cfg =
     \<lparr> collector = \<lparr> interval_seconds = 30, max_pages = 2, min_offers_after_filter = 30 \<rparr>,
       bybit_p2p_endpoint = demo_endpoint,
       markets = [demo_market] \<rparr>"

text \<open>One client fails once and then answers; the other one never answers.\<close>

definition demo_client_up :: client where
  "demo_client_up meth u hs body attempt =
     (if attempt = 0 then Inl ''ConnectError()''
      else Inr \<lparr> resp_text = demo_body_whole, status_code = 200 \<rparr>)"

definition demo_client_down :: client where
  "demo_client_down meth u hs body attempt = Inl ''ConnectTimeout()''"

definition demo_record :: "string option \<Rightarrow> pydict \<Rightarrow> RawFetchRecord" where
  "demo_record body req =
     \<lparr> format_version = ''rawfetch-v1'', RawFetchRecord.ts_utc = 0,
       RawFetchRecord.market = ''VND_SELL'', RawFetchRecord.fiat = ''VND'',
       RawFetchRecord.side = SELL, RawFetchRecord.page = 1,
       request_url = ''https://example.test/p2p'', request_method = ''POST'',
       request_headers = [], request_body = req, http_status = Some 200,
       response_text = body, error = None \<rparr>"

section \<open>Price engine: selection\<close>

lemma float_not_less:
  "a \<noteq> NaN \<Longrightarrow> b \<noteq> NaN \<Longrightarrow> \<not> (a :: pyfloat) < b \<Longrightarrow> b \<le> a"
  by (auto simp: less_pyfloat_def less_eq_pyfloat_def)

lemma float_less_trans: "(a :: pyfloat) < b \<Longrightarrow> b < c \<Longrightarrow> a < c"
  by (auto simp: less_pyfloat_def)

lemma float_less_le_trans: "(a :: pyfloat) < b \<Longrightarrow> b \<le> c \<Longrightarrow> a < c"
  by (auto simp: less_pyfloat_def less_eq_pyfloat_def)

lemma float_le_less_trans: "(a :: pyfloat) \<le> b \<Longrightarrow> b < c \<Longrightarrow> a < c"
  by (auto simp: less_pyfloat_def less_eq_pyfloat_def)

lemma float_le_refl: "a \<noteq> NaN \<Longrightarrow> (a :: pyfloat) \<le> a"
  by (simp add: less_eq_pyfloat_def)

lemma py_min_by_snoc:
  "py_min_by key b (xs @ [x]) =
     (if key x < key (py_min_by key b xs) then x else py_min_by key b xs)"
  by (induction xs arbitrary: b) simp_all

lemma py_max_by_snoc:
  "py_max_by key b (xs @ [x]) =
     (if key x > key (py_max_by key b xs) then x else py_max_by key b xs)"
  by (induction xs arbitrary: b) simp_all

lemma py_min_by_mem: "py_min_by key b xs \<in> set (b # xs)"
  by (induction xs arbitrary: b) auto

lemma py_max_by_mem: "py_max_by key b xs \<in> set (b # xs)"
  by (induction xs arbitrary: b) auto

lemma py_min_by_split:
  fixes key :: "'a \<Rightarrow> pyfloat"
  shows "\<forall>y\<in>set (b # xs). key y \<noteq> NaN \<Longrightarrow>
     \<exists>pre post. b # xs = pre @ py_min_by key b xs # post \<and>
       (\<forall>y\<in>set pre. key (py_min_by key b xs) < key y) \<and>
       (\<forall>y\<in>set post. key (py_min_by key b xs) \<le> key y)"
proof (induction xs rule: rev_induct)
  case Nil
  have "[b] = [] @ b # []" by simp
  then show ?case by (intro exI [of _ "[]"]) simp
next
  case (snoc x xs)
  let ?m = "py_min_by key b xs"
  have nn: "\<forall>y\<in>set (b # xs). key y \<noteq> NaN" and nx: "key x \<noteq> NaN"
    using snoc.prems by simp_all
  have nm: "key ?m \<noteq> NaN" using nn py_min_by_mem [of key b xs] by blast
  from snoc.IH [OF nn] obtain pre post where
    split: "b # xs = pre @ ?m # post" and
    before: "\<forall>y\<in>set pre. key ?m < key y" and
    after: "\<forall>y\<in>set post. key ?m \<le> key y"
    by blast
  show ?case
  proof (cases "key x < key ?m")
    case True
    have all: "\<forall>y\<in>set (b # xs). key x < key y"
    proof
      fix y assume "y \<in> set (b # xs)"
      then have "y \<in> set pre \<or> y = ?m \<or> y \<in> set post"
        unfolding split by auto
      with before after True show "key x < key y"
        by (auto intro: float_less_le_trans float_less_trans)
    qed
    have "b # (xs @ [x]) = (b # xs) @ x # []" by simp
    with all True show ?thesis
      unfolding py_min_by_snoc
      by (intro exI [of _ "b # xs"] exI [of _ "[]"]) simp
  next
    case False
    have mx: "key ?m \<le> key x" using False nx nm by (intro float_not_less)
    have "b # (xs @ [x]) = pre @ ?m # (post @ [x])"
      using split by (metis append.assoc append_Cons)
    moreover have "\<forall>y\<in>set (post @ [x]). key ?m \<le> key y"
      using after mx by auto
    ultimately show ?thesis
      unfolding py_min_by_snoc using before False
      by (intro exI [of _ pre] exI [of _ "post @ [x]"]) simp
  qed
qed

lemma py_max_by_split:
  fixes key :: "'a \<Rightarrow> pyfloat"
  shows "\<forall>y\<in>set (b # xs). key y \<noteq> NaN \<Longrightarrow>
     \<exists>pre post. b # xs = pre @ py_max_by key b xs # post \<and>
       (\<forall>y\<in>set pre. key y < key (py_max_by key b xs)) \<and>
       (\<forall>y\<in>set post. key y \<le> key (py_max_by key b xs))"
proof (induction xs rule: rev_induct)
  case Nil
  have "[b] = [] @ b # []" by simp
  then show ?case by (intro exI [of _ "[]"]) simp
next
  case (snoc x xs)
  let ?m = "py_max_by key b xs"
  have nn: "\<forall>y\<in>set (b # xs). key y \<noteq> NaN" and nx: "key x \<noteq> NaN"
    using snoc.prems by simp_all
  have nm: "key ?m \<noteq> NaN" using nn py_max_by_mem [of key b xs] by blast
  from snoc.IH [OF nn] obtain pre post where
    split: "b # xs = pre @ ?m # post" and
    before: "\<forall>y\<in>set pre. key y < key ?m" and
    after: "\<forall>y\<in>set post. key y \<le> key ?m"
    by blast
  show ?case
  proof (cases "key ?m < key x")
    case True
    have all: "\<forall>y\<in>set (b # xs). key y < key x"
    proof
      fix y assume "y \<in> set (b # xs)"
      then have "y \<in> set pre \<or> y = ?m \<or> y \<in> set post"
        unfolding split by auto
      with before after True show "key y < key x"
        by (auto intro: float_le_less_trans float_less_trans)
    qed
    have "b # (xs @ [x]) = (b # xs) @ x # []" by simp
    with all True show ?thesis
      unfolding py_max_by_snoc
      by (intro exI [of _ "b # xs"] exI [of _ "[]"]) simp
  next
    case False
    have mx: "key x \<le> key ?m" using False nx nm by (intro float_not_less)
    have "b # (xs @ [x]) = pre @ ?m # (post @ [x])"
      using split by (metis append.assoc append_Cons)
    moreover have "\<forall>y\<in>set (post @ [x]). key y \<le> key ?m"
      using after mx by auto
    ultimately show ?thesis
      unfolding py_max_by_snoc using before False
      by (intro exI [of _ pre] exI [of _ "post @ [x]"]) simp
  qed
qed

lemma filter_split:
  "filter P xs = pre' @ m # post' \<Longrightarrow>
     \<exists>pre post. xs = pre @ m # post \<and> P m \<and> filter P pre = pre' \<and> filter P post = post'"
proof (induction pre' arbitrary: xs)
  case Nil
  then have "filter P xs = m # post'" by simp
  then obtain us vs where "xs = us @ m # vs" "\<forall>u\<in>set us. \<not> P u" "P m" "post' = filter P vs"
    unfolding filter_eq_Cons_iff by blast
  moreover from this have "filter P us = []" by (simp add: filter_empty_conv)
  ultimately show ?case by blast
next
  case (Cons a pre'')
  then have "filter P xs = a # (pre'' @ m # post')" by simp
  then obtain us vs where xs: "xs = us @ a # vs" and no: "\<forall>u\<in>set us. \<not> P u" and a: "P a"
    and vs: "pre'' @ m # post' = filter P vs"
    unfolding filter_eq_Cons_iff by blast
  from Cons.IH [of vs] vs obtain pre2 post where
    v: "vs = pre2 @ m # post" and m: "P m" and p2: "filter P pre2 = pre''"
    and po: "filter P post = post'"
    by metis
  have "filter P us = []" using no by (simp add: filter_empty_conv)
  then have "filter P (us @ a # pre2) = a # pre''" using a p2 by simp
  moreover have "xs = (us @ a # pre2) @ m # post" using xs v by simp
  ultimately show ?case using m po by blast
qed

lemma is_candidate_buy: "is_candidate ''buy_usdt'' amount c = spec_acquire_ok amount c"
  by (rule ext) (simp add: is_candidate_def spec_acquire_ok_def executable_for_fiat_amount_def)

lemma is_candidate_sell: "is_candidate ''sell_usdt'' amount c = spec_dispose_ok amount c"
  by (rule ext)
     (simp add: is_candidate_def spec_dispose_ok_def executable_for_usdt_amount_def Let_def)

lemma best_single_buy:
  "(filter (spec_acquire_ok amount c) offers = [] \<longrightarrow>
      best_single offers ''buy_usdt'' amount c = None) \<and>
   (filter (spec_acquire_ok amount c) offers \<noteq> [] \<and>
    (\<forall>y\<in>set offers. spec_acquire_ok amount c y \<longrightarrow> price_fiat_per_usdt y \<noteq> NaN) \<longrightarrow>
      (\<exists>pre b post. offers = pre @ b # post \<and> spec_acquire_ok amount c b \<and>
         best_single offers ''buy_usdt'' amount c = Some (BestSingleResult b (price_fiat_per_usdt b)) \<and>
         (\<forall>y\<in>set pre. spec_acquire_ok amount c y \<longrightarrow> price_fiat_per_usdt b < price_fiat_per_usdt y) \<and>
         (\<forall>y\<in>set post. spec_acquire_ok amount c y \<longrightarrow> price_fiat_per_usdt b \<le> price_fiat_per_usdt y)))"
proof (cases "filter (spec_acquire_ok amount c) offers")
  case Nil
  then show ?thesis by (simp add: best_single_def is_candidate_buy)
next
  case (Cons x xs)
  let ?P = "spec_acquire_ok amount c"
  let ?m = "py_min_by price_fiat_per_usdt x xs"
  show ?thesis
  proof (intro conjI impI)
    assume "filter ?P offers = []"
    with Cons show "best_single offers ''buy_usdt'' amount c = None" by simp
  next
    assume h: "filter ?P offers \<noteq> [] \<and>
      (\<forall>y\<in>set offers. ?P y \<longrightarrow> price_fiat_per_usdt y \<noteq> NaN)"
    have "set (x # xs) = {y \<in> set offers. ?P y}" using Cons [symmetric] by simp
    with h have nn: "\<forall>y\<in>set (x # xs). price_fiat_per_usdt y \<noteq> NaN" by blast
    from py_min_by_split [OF nn]
    obtain pre' post' where s: "x # xs = pre' @ ?m # post'"
      and lt: "\<forall>y\<in>set pre'. price_fiat_per_usdt ?m < price_fiat_per_usdt y"
      and le: "\<forall>y\<in>set post'. price_fiat_per_usdt ?m \<le> price_fiat_per_usdt y"
      by blast
    from Cons s have "filter ?P offers = pre' @ ?m # post'" by simp
    from filter_split [OF this]
    obtain pre post where o: "offers = pre @ ?m # post" and m: "?P ?m"
      and fpre: "filter ?P pre = pre'" and fpost: "filter ?P post = post'"
      by blast
    have r: "best_single offers ''buy_usdt'' amount c = Some (BestSingleResult ?m (price_fiat_per_usdt ?m))"
      using Cons by (simp add: best_single_def is_candidate_buy Let_def)
    have a: "\<forall>y\<in>set pre. ?P y \<longrightarrow> price_fiat_per_usdt ?m < price_fiat_per_usdt y"
      using lt fpre by auto
    have b: "\<forall>y\<in>set post. ?P y \<longrightarrow> price_fiat_per_usdt ?m \<le> price_fiat_per_usdt y"
      using le fpost by auto
    show "\<exists>pre b post. offers = pre @ b # post \<and> spec_acquire_ok amount c b \<and>
         best_single offers ''buy_usdt'' amount c = Some (BestSingleResult b (price_fiat_per_usdt b)) \<and>
         (\<forall>y\<in>set pre. spec_acquire_ok amount c y \<longrightarrow> price_fiat_per_usdt b < price_fiat_per_usdt y) \<and>
         (\<forall>y\<in>set post. spec_acquire_ok amount c y \<longrightarrow> price_fiat_per_usdt b \<le> price_fiat_per_usdt y)"
      using o m r a b by (intro exI [of _ pre] exI [of _ ?m] exI [of _ post]) simp
  qed
qed

lemma best_single_sell:
  "(filter (spec_dispose_ok amount c) offers = [] \<longrightarrow>
      best_single offers ''sell_usdt'' amount c = None) \<and>
   (filter (spec_dispose_ok amount c) offers \<noteq> [] \<and>
    (\<forall>y\<in>set offers. spec_dispose_ok amount c y \<longrightarrow> price_fiat_per_usdt y \<noteq> NaN) \<longrightarrow>
      (\<exists>pre b post. offers = pre @ b # post \<and> spec_dispose_ok amount c b \<and>
         best_single offers ''sell_usdt'' amount c = Some (BestSingleResult b (price_fiat_per_usdt b)) \<and>
         (\<forall>y\<in>set pre. spec_dispose_ok amount c y \<longrightarrow> price_fiat_per_usdt y < price_fiat_per_usdt b) \<and>
         (\<forall>y\<in>set post. spec_dispose_ok amount c y \<longrightarrow> price_fiat_per_usdt y \<le> price_fiat_per_usdt b)))"
proof (cases "filter (spec_dispose_ok amount c) offers")
  case Nil
  then show ?thesis by (simp add: best_single_def is_candidate_sell)
next
  case (Cons x xs)
  let ?P = "spec_dispose_ok amount c"
  let ?m = "py_max_by price_fiat_per_usdt x xs"
  show ?thesis
  proof (intro conjI impI)
    assume "filter ?P offers = []"
    with Cons show "best_single offers ''sell_usdt'' amount c = None" by simp
  next
    assume h: "filter ?P offers \<noteq> [] \<and>
      (\<forall>y\<in>set offers. ?P y \<longrightarrow> price_fiat_per_usdt y \<noteq> NaN)"
    have "set (x # xs) = {y \<in> set offers. ?P y}" using Cons [symmetric] by simp
    with h have nn: "\<forall>y\<in>set (x # xs). price_fiat_per_usdt y \<noteq> NaN" by blast
    from py_max_by_split [OF nn]
    obtain pre' post' where s: "x # xs = pre' @ ?m # post'"
      and lt: "\<forall>y\<in>set pre'. price_fiat_per_usdt y < price_fiat_per_usdt ?m"
      and le: "\<forall>y\<in>set post'. price_fiat_per_usdt y \<le> price_fiat_per_usdt ?m"
      by blast
    from Cons s have "filter ?P offers = pre' @ ?m # post'" by simp
    from filter_split [OF this]
    obtain pre post where o: "offers = pre @ ?m # post" and m: "?P ?m"
      and fpre: "filter ?P pre = pre'" and fpost: "filter ?P post = post'"
      by blast
    have r: "best_single offers ''sell_usdt'' amount c = Some (BestSingleResult ?m (price_fiat_per_usdt ?m))"
      using Cons by (simp add: best_single_def is_candidate_sell Let_def)
    have a: "\<forall>y\<in>set pre. ?P y \<longrightarrow> price_fiat_per_usdt y < price_fiat_per_usdt ?m"
      using lt fpre by auto
    have b: "\<forall>y\<in>set post. ?P y \<longrightarrow> price_fiat_per_usdt y \<le> price_fiat_per_usdt ?m"
      using le fpost by auto
    show "\<exists>pre b post. offers = pre @ b # post \<and> spec_dispose_ok amount c b \<and>
         best_single offers ''sell_usdt'' amount c = Some (BestSingleResult b (price_fiat_per_usdt b)) \<and>
         (\<forall>y\<in>set pre. spec_dispose_ok amount c y \<longrightarrow> price_fiat_per_usdt y < price_fiat_per_usdt b) \<and>
         (\<forall>y\<in>set post. spec_dispose_ok amount c y \<longrightarrow> price_fiat_per_usdt y \<le> price_fiat_per_usdt b)"
      using o m r a b by (intro exI [of _ pre] exI [of _ ?m] exI [of _ post]) simp
  qed
qed

lemma demo_acquire:
  "filter (spec_acquire_ok (Num 100) no_constraints) demo_offers =
     [demo_offer SELL (Num 3) 50 200 [] None None, demo_offer SELL (Num 2) 50 200 [] None None,
      demo_offer SELL (Num 2) 50 200 [''bank''] None None]"
  by (simp add: spec_acquire_ok_def passes_constraints_def demo_offer_def no_constraints_def
        demo_offers_def less_eq_pyfloat_def)

lemma demo_dispose:
  "filter (spec_dispose_ok (Num 20) no_constraints) demo_offers =
     [demo_offer BUY (Num 5) 50 200 [] None None, demo_offer BUY (Num 7) 50 200 [] None None,
      demo_offer BUY (Num 7) 50 200 [''cash''] None None]"
  by (simp add: spec_dispose_ok_def passes_constraints_def demo_offer_def no_constraints_def
        demo_offers_def less_eq_pyfloat_def times_pyfloat_def)

lemma demo_offers_numbers: "\<forall>y\<in>set demo_offers. price_fiat_per_usdt y \<noteq> NaN"
  by (simp add: demo_offers_def demo_offer_def)

lemma demo_acquire_nan:
  "filter (spec_acquire_ok (Num 100) no_constraints) demo_offers_nan = demo_offers_nan"
  by (simp add: spec_acquire_ok_def passes_constraints_def demo_offer_def no_constraints_def
        demo_offers_nan_def less_eq_pyfloat_def)

text \<open>
  C1, amended. With direction \<open>buy_usdt\<close> the offers considered are exactly those that
  pass the constraints, are on the SELL side and have the amount, read as fiat, in their
  window; the result is absent when there is none. When there is one and no considered
  offer has a price that is not-a-number, the result is an offer \<open>b\<close> of the input list
  that is considered, with every considered offer before it strictly dearer and every
  considered offer after it at least as dear: the cheapest one, and the first of the
  cheapest. With direction \<open>sell_usdt\<close> the same holds for the offers on the BUY side
  whose window holds the amount times their own price, with the highest price.
\<close>

theorem best_single_selects:
  "(filter (spec_acquire_ok amount c) offers = [] \<longrightarrow>
      best_single offers ''buy_usdt'' amount c = None) \<and>
   (filter (spec_acquire_ok amount c) offers \<noteq> [] \<and>
    (\<forall>y\<in>set offers. spec_acquire_ok amount c y \<longrightarrow> price_fiat_per_usdt y \<noteq> NaN) \<longrightarrow>
      (\<exists>pre b post. offers = pre @ b # post \<and> spec_acquire_ok amount c b \<and>
         best_single offers ''buy_usdt'' amount c = Some (BestSingleResult b (price_fiat_per_usdt b)) \<and>
         (\<forall>y\<in>set pre. spec_acquire_ok amount c y \<longrightarrow> price_fiat_per_usdt b < price_fiat_per_usdt y) \<and>
         (\<forall>y\<in>set post. spec_acquire_ok amount c y \<longrightarrow> price_fiat_per_usdt b \<le> price_fiat_per_usdt y))) \<and>
   (filter (spec_dispose_ok amount c) offers = [] \<longrightarrow>
      best_single offers ''sell_usdt'' amount c = None) \<and>
   (filter (spec_dispose_ok amount c) offers \<noteq> [] \<and>
    (\<forall>y\<in>set offers. spec_dispose_ok amount c y \<longrightarrow> price_fiat_per_usdt y \<noteq> NaN) \<longrightarrow>
      (\<exists>pre b post. offers = pre @ b # post \<and> spec_dispose_ok amount c b \<and>
         best_single offers ''sell_usdt'' amount c = Some (BestSingleResult b (price_fiat_per_usdt b)) \<and>
         (\<forall>y\<in>set pre. spec_dispose_ok amount c y \<longrightarrow> price_fiat_per_usdt y < price_fiat_per_usdt b) \<and>
         (\<forall>y\<in>set post. spec_dispose_ok amount c y \<longrightarrow> price_fiat_per_usdt y \<le> price_fiat_per_usdt b)))"
proof -
  note buy = best_single_buy [of amount c offers]
  note sell = best_single_sell [of amount c offers]
  from conjunct1 [OF buy] conjunct2 [OF buy] conjunct1 [OF sell] conjunct2 [OF sell]
  show ?thesis by (intro conjI)
qed

theorem best_single_selects_witness:
  "best_single [] ''buy_usdt'' (Num 100) no_constraints = None \<and>
   best_single [] ''sell_usdt'' (Num 20) no_constraints = None \<and>
   (\<exists>pre b post. demo_offers = pre @ b # post \<and> spec_acquire_ok (Num 100) no_constraints b \<and>
      best_single demo_offers ''buy_usdt'' (Num 100) no_constraints =
        Some (BestSingleResult b (price_fiat_per_usdt b)) \<and>
      (\<forall>y\<in>set pre. spec_acquire_ok (Num 100) no_constraints y \<longrightarrow>
         price_fiat_per_usdt b < price_fiat_per_usdt y) \<and>
      (\<forall>y\<in>set post. spec_acquire_ok (Num 100) no_constraints y \<longrightarrow>
         price_fiat_per_usdt b \<le> price_fiat_per_usdt y)) \<and>
   (\<exists>pre b post. demo_offers = pre @ b # post \<and> spec_dispose_ok (Num 20) no_constraints b \<and>
      best_single demo_offers ''sell_usdt'' (Num 20) no_constraints =
        Some (BestSingleResult b (price_fiat_per_usdt b)) \<and>
      (\<forall>y\<in>set pre. spec_dispose_ok (Num 20) no_constraints y \<longrightarrow>
         price_fiat_per_usdt y < price_fiat_per_usdt b) \<and>
      (\<forall>y\<in>set post. spec_dispose_ok (Num 20) no_constraints y \<longrightarrow>
         price_fiat_per_usdt y \<le> price_fiat_per_usdt b)) \<and>
   best_single demo_offers ''buy_usdt'' (Num 100) no_constraints =
     Some (BestSingleResult (demo_offer SELL (Num 2) 50 200 [] None None) (Num 2)) \<and>
   best_single demo_offers ''sell_usdt'' (Num 20) no_constraints =
     Some (BestSingleResult (demo_offer BUY (Num 7) 50 200 [] None None) (Num 7))"
proof -
  have a: "filter (spec_acquire_ok (Num 100) no_constraints) demo_offers \<noteq> []"
    by (simp add: demo_acquire)
  have d: "filter (spec_dispose_ok (Num 20) no_constraints) demo_offers \<noteq> []"
    by (simp add: demo_dispose)
  have na: "\<forall>y\<in>set demo_offers. spec_acquire_ok (Num 100) no_constraints y \<longrightarrow>
       price_fiat_per_usdt y \<noteq> NaN"
    using demo_offers_numbers by blast
  have nd: "\<forall>y\<in>set demo_offers. spec_dispose_ok (Num 20) no_constraints y \<longrightarrow>
       price_fiat_per_usdt y \<noteq> NaN"
    using demo_offers_numbers by blast
  have cheapest: "best_single demo_offers ''buy_usdt'' (Num 100) no_constraints =
      Some (BestSingleResult (demo_offer SELL (Num 2) 50 200 [] None None) (Num 2))"
    by (simp add: best_single_def is_candidate_buy demo_acquire demo_offer_def less_pyfloat_def)
  have dearest: "best_single demo_offers ''sell_usdt'' (Num 20) no_constraints =
      Some (BestSingleResult (demo_offer BUY (Num 7) 50 200 [] None None) (Num 7))"
    by (simp add: best_single_def is_candidate_sell demo_dispose demo_offer_def less_pyfloat_def)
  have e1: "best_single [] ''buy_usdt'' (Num 100) no_constraints = None"
    using best_single_selects [of "Num 100" no_constraints "[]"] by simp
  have e2: "best_single [] ''sell_usdt'' (Num 20) no_constraints = None"
    using best_single_selects [of "Num 20" no_constraints "[]"] by simp
  have g1: "\<exists>pre b post. demo_offers = pre @ b # post \<and> spec_acquire_ok (Num 100) no_constraints b \<and>
      best_single demo_offers ''buy_usdt'' (Num 100) no_constraints =
        Some (BestSingleResult b (price_fiat_per_usdt b)) \<and>
      (\<forall>y\<in>set pre. spec_acquire_ok (Num 100) no_constraints y \<longrightarrow>
         price_fiat_per_usdt b < price_fiat_per_usdt y) \<and>
      (\<forall>y\<in>set post. spec_acquire_ok (Num 100) no_constraints y \<longrightarrow>
         price_fiat_per_usdt b \<le> price_fiat_per_usdt y)"
    using best_single_selects [of "Num 100" no_constraints demo_offers] a na by blast
  have g2: "\<exists>pre b post. demo_offers = pre @ b # post \<and> spec_dispose_ok (Num 20) no_constraints b \<and>
      best_single demo_offers ''sell_usdt'' (Num 20) no_constraints =
        Some (BestSingleResult b (price_fiat_per_usdt b)) \<and>
      (\<forall>y\<in>set pre. spec_dispose_ok (Num 20) no_constraints y \<longrightarrow>
         price_fiat_per_usdt y < price_fiat_per_usdt b) \<and>
      (\<forall>y\<in>set post. spec_dispose_ok (Num 20) no_constraints y \<longrightarrow>
         price_fiat_per_usdt y \<le> price_fiat_per_usdt b)"
    using best_single_selects [of "Num 20" no_constraints demo_offers] d nd by blast
  from e1 e2 g1 g2 cheapest dearest show ?thesis by (intro conjI)
qed

text \<open>
  C1 as it is stated fails on a price that is not a number, which the extractor produces
  from the price text \<open>NaN\<close>. Of the two offers of \<open>demo_offers_nan\<close> both are considered
  for acquiring with the fiat amount 100; the code returns the first one, whose price is
  not-a-number, and that price is not at most the price 2 of the second one: the result is
  not the cheapest of the considered offers.
\<close>

theorem best_single_nan_counterexample:
  "filter (spec_acquire_ok (Num 100) no_constraints) demo_offers_nan = demo_offers_nan \<and>
   demo_offers_nan =
     [demo_offer SELL NaN 50 200 [] None None, demo_offer SELL (Num 2) 50 200 [] None None] \<and>
   best_single demo_offers_nan ''buy_usdt'' (Num 100) no_constraints =
     Some (BestSingleResult (demo_offer SELL NaN 50 200 [] None None) NaN) \<and>
   \<not> price_fiat_per_usdt (demo_offer SELL NaN 50 200 [] None None)
       \<le> price_fiat_per_usdt (demo_offer SELL (Num 2) 50 200 [] None None)"
proof -
  have a: "filter (spec_acquire_ok (Num 100) no_constraints) demo_offers_nan = demo_offers_nan"
    by (rule demo_acquire_nan)
  have b: "demo_offers_nan =
     [demo_offer SELL NaN 50 200 [] None None, demo_offer SELL (Num 2) 50 200 [] None None]"
    by (simp add: demo_offers_nan_def)
  have c: "best_single demo_offers_nan ''buy_usdt'' (Num 100) no_constraints =
     Some (BestSingleResult (demo_offer SELL NaN 50 200 [] None None) NaN)"
    using a
    by (simp add: best_single_def is_candidate_buy)
       (simp add: demo_offers_nan_def demo_offer_def less_pyfloat_def)
  have d: "\<not> price_fiat_per_usdt (demo_offer SELL NaN 50 200 [] None None)
       \<le> price_fiat_per_usdt (demo_offer SELL (Num 2) 50 200 [] None None)"
    by (simp add: demo_offer_def less_eq_pyfloat_def)
  from a b c d show ?thesis by (intro conjI)
qed

section \<open>Price engine: constraints\<close>

lemma passes_constraints_iff:
  "passes_constraints x c \<longleftrightarrow>
     (merchant_only c \<longrightarrow> is_merchant x = Some True) \<and>
     (\<forall>r. rating x = Some r \<longrightarrow> \<not> r < min_rating c) \<and>
     (\<forall>acc. payment_methods_any c = Some acc \<and> acc \<noteq> {} \<longrightarrow>
        set (payment_methods x) \<inter> acc \<noteq> {})"
  by (auto simp: passes_constraints_def list_ex_iff split: option.splits)

lemma best_single_none:
  "(\<forall>y\<in>set offers. \<not> is_candidate direction amount c y) \<Longrightarrow>
     best_single offers direction amount c = None"
  by (simp add: best_single_def filter_empty_conv [THEN iffD2])

text \<open>
  C6. An offer passes the constraint filter exactly when (a) under \<open>merchant_only\<close> its
  merchant flag is known to be true, (b) its rating, if known, is not below the minimum
  rating, an unknown rating passing, and (c) it shares a payment method with the accepted
  set, if that set is given and not empty. \<open>best_single\<close> is a total function, and it
  returns \<open>None\<close> whenever no offer passes the constraints, and whenever none passes the
  constraints, the side test and the window test of the direction.
\<close>

theorem constraints_filter_and_absent_result:
  "(passes_constraints x c \<longleftrightarrow>
      (merchant_only c \<longrightarrow> is_merchant x = Some True) \<and>
      (\<forall>r. rating x = Some r \<longrightarrow> \<not> r < min_rating c) \<and>
      (\<forall>acc. payment_methods_any c = Some acc \<and> acc \<noteq> {} \<longrightarrow>
         set (payment_methods x) \<inter> acc \<noteq> {})) \<and>
   (rating x = None \<and> \<not> merchant_only c \<and> payment_methods_any c = None \<longrightarrow>
      passes_constraints x c) \<and>
   ((\<forall>y\<in>set offers. \<not> passes_constraints y c) \<longrightarrow>
      best_single offers direction amount c = None) \<and>
   ((\<forall>y\<in>set offers. \<not> spec_acquire_ok amount c y) \<longrightarrow>
      best_single offers ''buy_usdt'' amount c = None) \<and>
   ((\<forall>y\<in>set offers. \<not> spec_dispose_ok amount c y) \<longrightarrow>
      best_single offers ''sell_usdt'' amount c = None)"
proof -
  have a: "(\<forall>y\<in>set offers. \<not> passes_constraints y c) \<longrightarrow>
      best_single offers direction amount c = None"
    by (simp add: best_single_none is_candidate_def)
  have b: "(\<forall>y\<in>set offers. \<not> spec_acquire_ok amount c y) \<longrightarrow>
      best_single offers ''buy_usdt'' amount c = None"
    by (simp add: best_single_none is_candidate_buy)
  have d: "(\<forall>y\<in>set offers. \<not> spec_dispose_ok amount c y) \<longrightarrow>
      best_single offers ''sell_usdt'' amount c = None"
    by (simp add: best_single_none is_candidate_sell)
  have e: "rating x = None \<and> \<not> merchant_only c \<and> payment_methods_any c = None \<longrightarrow>
      passes_constraints x c"
    by (simp add: passes_constraints_iff)
  from a b d e passes_constraints_iff [of x c] show ?thesis by blast
qed

theorem constraints_filter_and_absent_result_witness:
  "\<not> passes_constraints (demo_offer SELL (Num 3) 50 200 [''bank''] (Some False) None) demo_strict \<and>
   \<not> passes_constraints (demo_offer SELL (Num 3) 50 200 [''cash''] (Some True) (Some 4)) demo_strict \<and>
   \<not> passes_constraints (demo_offer SELL (Num 3) 50 200 [''bank''] (Some True) None) demo_strict \<and>
   passes_constraints (demo_offer SELL (Num 3) 50 200 [''bank'', ''cash''] (Some True) None) demo_strict \<and>
   passes_constraints (demo_offer SELL (Num 3) 50 200 [] None None) no_constraints \<and>
   best_single demo_offers ''buy_usdt'' (Num 100) demo_strict = None \<and>
   best_single demo_offers ''buy_usdt'' (Num 1000) no_constraints = None \<and>
   best_single demo_offers ''sell_usdt'' (Num 1000) no_constraints = None"
proof -
  note T = constraints_filter_and_absent_result
  have 1: "\<forall>y\<in>set demo_offers. \<not> passes_constraints y demo_strict"
    by (simp add: demo_offers_def demo_offer_def demo_strict_def passes_constraints_def
          less_pyfloat_def)
  have 2: "\<forall>y\<in>set demo_offers. \<not> spec_acquire_ok (Num 1000) no_constraints y"
    by (simp add: demo_offers_def demo_offer_def spec_acquire_ok_def less_eq_pyfloat_def)
  have 3: "\<forall>y\<in>set demo_offers. \<not> spec_dispose_ok (Num 1000) no_constraints y"
    by (simp add: demo_offers_def demo_offer_def spec_dispose_ok_def less_eq_pyfloat_def
          times_pyfloat_def)
  have a: "\<not> passes_constraints (demo_offer SELL (Num 3) 50 200 [''bank''] (Some False) None) demo_strict"
    using T [of "demo_offer SELL (Num 3) 50 200 [''bank''] (Some False) None" demo_strict]
    by (simp add: demo_offer_def demo_strict_def less_pyfloat_def)
  have b: "\<not> passes_constraints (demo_offer SELL (Num 3) 50 200 [''cash''] (Some True) (Some 4)) demo_strict"
    using T [of "demo_offer SELL (Num 3) 50 200 [''cash''] (Some True) (Some 4)" demo_strict]
    by (simp add: demo_offer_def demo_strict_def less_pyfloat_def)
  have c: "\<not> passes_constraints (demo_offer SELL (Num 3) 50 200 [''bank''] (Some True) None) demo_strict"
    using T [of "demo_offer SELL (Num 3) 50 200 [''bank''] (Some True) None" demo_strict]
    by (simp add: demo_offer_def demo_strict_def less_pyfloat_def)
  have d: "passes_constraints (demo_offer SELL (Num 3) 50 200 [''bank'', ''cash''] (Some True) None) demo_strict"
    using T [of "demo_offer SELL (Num 3) 50 200 [''bank'', ''cash''] (Some True) None" demo_strict]
    by (simp add: demo_offer_def demo_strict_def less_pyfloat_def)
  have e: "passes_constraints (demo_offer SELL (Num 3) 50 200 [] None None) no_constraints"
    using T [of "demo_offer SELL (Num 3) 50 200 [] None None" no_constraints]
    by (simp add: demo_offer_def no_constraints_def less_pyfloat_def)
  have f: "best_single demo_offers ''buy_usdt'' (Num 100) demo_strict = None"
    using T [of _ demo_strict demo_offers "''buy_usdt''" "Num 100"] 1 by blast
  have g: "best_single demo_offers ''buy_usdt'' (Num 1000) no_constraints = None"
    using T [of _ no_constraints demo_offers _ "Num 1000"] 2 by blast
  have h: "best_single demo_offers ''sell_usdt'' (Num 1000) no_constraints = None"
    using T [of _ no_constraints demo_offers _ "Num 1000"] 3 by blast
  from a b c d e f g h show ?thesis by simp
qed

section \<open>Collector: sanitized headers\<close>

lemma sanitize_headers_keys:
  "k \<in> fst ` set (sanitize_headers hs) \<Longrightarrow> lower k \<notin> SENSITIVE_HEADERS"
  by (auto simp: sanitize_headers_def)

lemma sanitize_headers_map_of:
  "map_of (sanitize_headers hs) k = (if lower k \<in> SENSITIVE_HEADERS then None else map_of hs k)"
  by (induction hs) (auto simp: sanitize_headers_def)

lemma fetch_market_page_headers:
  "request_headers (fetch_market_page lib cl now cfg mkt page_no) =
     sanitize_headers (headers (bybit_p2p_endpoint cfg))"
  by (simp add: fetch_market_page_def Let_def split: sum.splits prod.splits)

text \<open>
  C8. No key of the sanitized headers has a lower-case form in the sensitive set, and a
  header whose lower-case name is not in the set is looked up in the sanitized headers as
  in the configured ones; both hold for the headers recorded by \<open>fetch_market_page\<close>,
  which are the sanitized headers of the endpoint.
\<close>

theorem sanitized_headers_not_sensitive:
  "(\<forall>k \<in> fst ` set (sanitize_headers hs). lower k \<notin> SENSITIVE_HEADERS) \<and>
   (\<forall>k. lower k \<notin> SENSITIVE_HEADERS \<longrightarrow> map_of (sanitize_headers hs) k = map_of hs k) \<and>
   (\<forall>k \<in> fst ` set (request_headers (fetch_market_page lib cl now cfg mkt page_no)).
      lower k \<notin> SENSITIVE_HEADERS) \<and>
   (\<forall>k. lower k \<notin> SENSITIVE_HEADERS \<longrightarrow>
      map_of (request_headers (fetch_market_page lib cl now cfg mkt page_no)) k =
      map_of (headers (bybit_p2p_endpoint cfg)) k)"
  using sanitize_headers_keys sanitize_headers_map_of fetch_market_page_headers
  by (metis (no_types, lifting))

theorem sanitized_headers_not_sensitive_witness:
  "lower ''Accept'' \<notin> SENSITIVE_HEADERS \<and>
   map_of (sanitize_headers (headers demo_endpoint)) ''Accept'' = Some ''application/json'' \<and>
   map_of (request_headers (fetch_market_page demo_lib demo_client_up 0 demo_cfg demo_market 1))
     ''Accept'' = Some ''application/json'' \<and>
   ''Cookie'' \<notin> fst ` set (sanitize_headers (headers demo_endpoint)) \<and>
   ''riskToken'' \<notin>
     fst ` set (request_headers (fetch_market_page demo_lib demo_client_up 0 demo_cfg demo_market 1))"
proof -
  have 1: "lower ''Accept'' \<notin> SENSITIVE_HEADERS"
    by (simp add: lower_def lower_char_def SENSITIVE_HEADERS_def)
  have 2: "lower ''Cookie'' \<in> SENSITIVE_HEADERS"
    by (simp add: lower_def lower_char_def SENSITIVE_HEADERS_def)
  have 3: "lower ''riskToken'' \<in> SENSITIVE_HEADERS"
    by (simp add: lower_def lower_char_def SENSITIVE_HEADERS_def)
  have 4: "map_of (headers demo_endpoint) ''Accept'' = Some ''application/json''"
    by (simp add: demo_endpoint_def)
  have 5: "bybit_p2p_endpoint demo_cfg = demo_endpoint"
    by (simp add: demo_cfg_def)
  from sanitized_headers_not_sensitive
         [of "headers demo_endpoint" demo_lib demo_client_up 0 demo_cfg demo_market 1]
       1 2 3 4 5
  show ?thesis by auto
qed

section \<open>Collector: the outcome of a fetch\<close>

text \<open>
  C9. The record of \<open>fetch_market_page\<close> follows the outcome of the request. When the
  request completes, the record carries the text and the status of the response and no
  error; when it raises, the record carries the error and neither text nor status. So the
  record has a response text exactly when it has no error.
\<close>

theorem fetch_record_one_of:
  "(\<forall>resp. request cl (http_method (bybit_p2p_endpoint cfg)) (url (bybit_p2p_endpoint cfg))
             (headers (bybit_p2p_endpoint cfg))
             (build_body lib (body_template (bybit_p2p_endpoint cfg)) (MarketConfig.fiat mkt)
                (side_str (MarketConfig.side mkt)) (endpoint_side mkt) page_no) = Inr resp \<longrightarrow>
      response_text (fetch_market_page lib cl now cfg mkt page_no) = Some (resp_text resp) \<and>
      http_status (fetch_market_page lib cl now cfg mkt page_no) = Some (status_code resp) \<and>
      error (fetch_market_page lib cl now cfg mkt page_no) = None) \<and>
   (\<forall>e. request cl (http_method (bybit_p2p_endpoint cfg)) (url (bybit_p2p_endpoint cfg))
             (headers (bybit_p2p_endpoint cfg))
             (build_body lib (body_template (bybit_p2p_endpoint cfg)) (MarketConfig.fiat mkt)
                (side_str (MarketConfig.side mkt)) (endpoint_side mkt) page_no) = Inl e \<longrightarrow>
      response_text (fetch_market_page lib cl now cfg mkt page_no) = None \<and>
      http_status (fetch_market_page lib cl now cfg mkt page_no) = None \<and>
      error (fetch_market_page lib cl now cfg mkt page_no) = Some e) \<and>
   (response_text (fetch_market_page lib cl now cfg mkt page_no) \<noteq> None \<longleftrightarrow>
      error (fetch_market_page lib cl now cfg mkt page_no) = None) \<and>
   (http_status (fetch_market_page lib cl now cfg mkt page_no) \<noteq> None \<longleftrightarrow>
      error (fetch_market_page lib cl now cfg mkt page_no) = None)"
  by (simp add: fetch_market_page_def Let_def split: sum.splits)

theorem fetch_record_one_of_witness:
  "response_text (fetch_market_page demo_lib demo_client_up 0 demo_cfg demo_market 1) =
     Some demo_body_whole \<and>
   http_status (fetch_market_page demo_lib demo_client_up 0 demo_cfg demo_market 1) = Some 200 \<and>
   error (fetch_market_page demo_lib demo_client_up 0 demo_cfg demo_market 1) = None \<and>
   response_text (fetch_market_page demo_lib demo_client_down 0 demo_cfg demo_market 1) = None \<and>
   http_status (fetch_market_page demo_lib demo_client_down 0 demo_cfg demo_market 1) = None \<and>
   error (fetch_market_page demo_lib demo_client_down 0 demo_cfg demo_market 1) =
     Some ''ConnectTimeout()''"
proof -
  have up: "request demo_client_up (http_method (bybit_p2p_endpoint demo_cfg))
              (url (bybit_p2p_endpoint demo_cfg)) (headers (bybit_p2p_endpoint demo_cfg))
              (build_body demo_lib (body_template (bybit_p2p_endpoint demo_cfg))
                 (MarketConfig.fiat demo_market) (side_str (MarketConfig.side demo_market))
                 (endpoint_side demo_market) 1) =
            Inr \<lparr> resp_text = demo_body_whole, status_code = 200 \<rparr>"
    by (simp add: request_def demo_client_up_def)
  have down: "request demo_client_down (http_method (bybit_p2p_endpoint demo_cfg))
              (url (bybit_p2p_endpoint demo_cfg)) (headers (bybit_p2p_endpoint demo_cfg))
              (build_body demo_lib (body_template (bybit_p2p_endpoint demo_cfg))
                 (MarketConfig.fiat demo_market) (side_str (MarketConfig.side demo_market))
                 (endpoint_side demo_market) 1) = Inl ''ConnectTimeout()''"
    by (simp add: request_def demo_client_down_def)
  from fetch_record_one_of [of demo_client_up demo_cfg demo_lib demo_market 1 0] up
       fetch_record_one_of [of demo_client_down demo_cfg demo_lib demo_market 1 0] down
  show ?thesis by simp
qed

section \<open>Runtime: the division of integers\<close>

lemma round_half_even_le: "x \<le> of_int hi \<Longrightarrow> round_half_even x \<le> hi"
proof -
  assume h: "x \<le> of_int hi"
  have f: "\<lfloor>x\<rfloor> \<le> hi" using h by (simp add: floor_le_iff)
  show ?thesis
  proof (cases "\<lfloor>x\<rfloor> = hi")
    case True
    then have "x - of_int \<lfloor>x\<rfloor> \<le> 0" using h by simp
    then show ?thesis using True by (simp add: round_half_even_def Let_def)
  next
    case False
    with f have "\<lfloor>x\<rfloor> + 1 \<le> hi" by simp
    then show ?thesis by (simp add: round_half_even_def Let_def)
  qed
qed

lemma round_half_even_ge: "of_int lo \<le> x \<Longrightarrow> lo \<le> round_half_even x"
proof -
  assume "of_int lo \<le> x"
  then have "lo \<le> \<lfloor>x\<rfloor>" by (simp add: le_floor_iff)
  then show ?thesis by (simp add: round_half_even_def Let_def)
qed

lemma round_half_even_gt: "of_int lo + 1 / 2 < x \<Longrightarrow> lo < round_half_even x"
proof -
  assume h: "of_int lo + 1 / 2 < x"
  then have f: "lo \<le> \<lfloor>x\<rfloor>" by (simp add: le_floor_iff)
  show ?thesis
  proof (cases "\<lfloor>x\<rfloor> = lo")
    case True
    then have "1 / 2 < x - of_int \<lfloor>x\<rfloor>" using h by simp
    then show ?thesis using True by (simp add: round_half_even_def Let_def)
  next
    case False
    with f have "lo < \<lfloor>x\<rfloor>" by simp
    then show ?thesis by (simp add: round_half_even_def Let_def)
  qed
qed

lemma bitlen_powi:
  assumes "0 < a"
  shows "(2 :: rat) powi (bitlen a - 1) \<le> of_int a" and "of_int a < (2 :: rat) powi bitlen a"
proof -
  have b1: "1 \<le> bitlen a"
    using assms bitlen_eq_zero_iff [of a] bitlen_nonneg [of a] by linarith
  from bitlen_bounds [OF assms]
  have lo: "2 ^ nat (bitlen a - 1) \<le> a" and hi: "a < 2 ^ nat (bitlen a)" by simp_all
  have "(2 :: rat) powi (bitlen a - 1) = of_int (2 ^ nat (bitlen a - 1))"
    using b1 by (simp add: power_int_def)
  also have "\<dots> \<le> of_int a" using lo by (simp only: of_int_le_iff)
  finally show "(2 :: rat) powi (bitlen a - 1) \<le> of_int a" .
  have "(2 :: rat) powi bitlen a = of_int (2 ^ nat (bitlen a))"
    using b1 by (simp add: power_int_def)
  moreover have "(of_int a :: rat) < of_int (2 ^ nat (bitlen a))"
    using hi by (simp only: of_int_less_iff)
  ultimately show "of_int a < (2 :: rat) powi bitlen a" by simp
qed

lemma floor_log2_bounds:
  assumes "0 < a" "0 < b"
  shows "(2 :: rat) powi floor_log2 a b \<le> of_int a / of_int b"
    and "of_int a / of_int b < (2 :: rat) powi (floor_log2 a b + 1)"
proof -
  let ?x = "(of_int a :: rat) / of_int b"
  let ?d = "bitlen a - bitlen b"
  have pb: "(0 :: rat) < of_int b" using assms by simp
  have p2: "(0 :: rat) < 2 powi n" for n by simp
  have up: "?x < 2 powi (?d + 1)"
  proof -
    have "?x < 2 powi bitlen a / of_int b"
      using bitlen_powi(2) [OF assms(1)] pb by (simp add: divide_strict_right_mono)
    also have "\<dots> \<le> 2 powi bitlen a / 2 powi (bitlen b - 1)"
      using bitlen_powi(1) [OF assms(2)] p2 [of "bitlen b - 1"] p2 [of "bitlen a"] pb
      by (intro divide_left_mono) (simp_all add: less_imp_le mult_pos_pos)
    also have "\<dots> = 2 powi (?d + 1)"
      by (simp add: power_int_diff [symmetric] algebra_simps)
    finally show ?thesis .
  qed
  have low: "(2 :: rat) powi (?d - 1) < ?x"
  proof -
    have "(2 :: rat) powi (?d - 1) = 2 powi (bitlen a - 1) / 2 powi bitlen b"
      by (simp add: power_int_diff [symmetric] algebra_simps)
    also have "\<dots> \<le> of_int a / 2 powi bitlen b"
      using bitlen_powi(1) [OF assms(1)] p2 [of "bitlen b"] by (simp add: divide_right_mono)
    also have "\<dots> < of_int a / of_int b"
      using bitlen_powi(2) [OF assms(2)] pb assms(1)
      by (intro divide_strict_left_mono) simp_all
    finally show ?thesis .
  qed
  show "(2 :: rat) powi floor_log2 a b \<le> ?x"
    using low by (simp add: floor_log2_def Let_def less_imp_le)
  show "?x < (2 :: rat) powi (floor_log2 a b + 1)"
    using up by (auto simp: floor_log2_def Let_def not_le)
qed

lemma powi_nonpos_le_1: "n \<le> 0 \<Longrightarrow> (2 :: rat) powi n \<le> 1"
  using power_int_increasing [of n 0 "2 :: rat"] by simp

lemma powi_neg_eq:
  assumes "n \<le> 0"
  shows "(2 :: rat) powi n = 1 / of_int (2 ^ nat (- n))"
proof -
  have "(2 :: rat) powi n = inverse (2 powi (- n))"
    using power_int_minus [of "2 :: rat" "- n"] by simp
  also have "(2 :: rat) powi (- n) = 2 ^ nat (- n)"
    using assms by (simp add: power_int_def)
  finally show ?thesis by (simp add: divide_inverse)
qed

lemma binary64_quotient_ceiling:
  assumes b: "0 < b" and ba: "b \<le> a" and a53: "a < 2 ^ 53"
  shows "\<lceil>binary64_quotient a b\<rceil> = \<lceil>(of_int a :: rat) / of_int b\<rceil>"
proof -
  let ?x = "(of_int a :: rat) / of_int b"
  let ?e = "floor_log2 a b"
  have a: "0 < a" using b ba by simp
  have pb: "(0 :: rat) < of_int b" using b by simp
  have x1: "1 \<le> ?x" using ba pb by simp
  have lo: "(2 :: rat) powi ?e \<le> ?x" and hi: "?x < (2 :: rat) powi (?e + 1)"
    using floor_log2_bounds [OF a b] by simp_all
  have e0: "0 \<le> ?e"
  proof (rule ccontr)
    assume "\<not> 0 \<le> ?e"
    then have "?e + 1 \<le> 0" by simp
    then have "(2 :: rat) powi (?e + 1) \<le> 1" by (rule powi_nonpos_le_1)
    with hi x1 show False by simp
  qed
  have xa: "?x \<le> of_int a"
  proof -
    have "(of_int a :: rat) / of_int b \<le> of_int a / 1"
      using b a by (intro divide_left_mono) simp_all
    then show ?thesis by simp
  qed
  have e52: "?e \<le> 52"
  proof (rule ccontr)
    assume "\<not> ?e \<le> 52"
    then have "53 \<le> ?e" by simp
    then have "(2 :: rat) powi 53 \<le> 2 powi ?e"
      by (intro power_int_increasing) simp_all
    also have "\<dots> \<le> of_int a" using lo xa by simp
    finally have "(2 :: rat) ^ 53 \<le> of_int a" by simp
    moreover have "(of_int a :: rat) < of_int (2 ^ 53)" using a53 by (simp only: of_int_less_iff)
    ultimately show False by simp
  qed
  define k where "k = nat (52 - ?e)"
  define N :: int where "N = 2 ^ k"
  have Npos: "0 < N" by (simp add: N_def)
  have u: "(2 :: rat) powi (?e - 52) = 1 / of_int N"
    using e52 powi_neg_eq [of "?e - 52"] by (simp add: N_def k_def)
  have emax: "max ?e (- 1022) = ?e" using e0 by simp
  have r: "binary64_quotient a b = of_int (round_half_even (?x * of_int N)) / of_int N"
    by (simp add: binary64_quotient_def Let_def emax u)
  have two: "(2 :: rat) powi ?e * (2 * of_int N) = 2 ^ 53"
  proof -
    have "(2 :: rat) powi ?e * (2 * of_int N) = 2 powi ?e * 2 powi (53 - ?e)"
      using e52 by (simp add: N_def k_def power_int_def nat_diff_distrib power_Suc [symmetric]
                     Suc_nat_eq_nat_zadd1 del: power_Suc)
    also have "\<dots> = 2 powi 53" by (simp add: power_int_add [symmetric])
    finally show ?thesis by simp
  qed
  have bN: "(of_int b :: rat) < 2 * of_int N"
  proof -
    have "of_int b * (2 :: rat) powi ?e \<le> of_int a"
      using lo pb by (simp add: field_simps)
    also have "\<dots> < 2 ^ 53"
      using a53 by (metis of_int_less_iff of_int_numeral of_int_power)
    also have "\<dots> = (2 * of_int N) * (2 :: rat) powi ?e" using two by (simp add: mult.commute)
    finally show ?thesis by simp
  qed
  let ?c = "\<lceil>?x\<rceil>"
  have up: "binary64_quotient a b \<le> of_int ?c"
  proof -
    have "?x \<le> of_int ?c" by (rule le_of_int_ceiling)
    then have "?x * of_int N \<le> of_int ?c * of_int N"
      using Npos by (intro mult_right_mono) simp_all
    then have "?x * of_int N \<le> of_int (?c * N)"
      by (simp only: of_int_mult)
    then have "round_half_even (?x * of_int N) \<le> ?c * N" by (rule round_half_even_le)
    then have "(of_int (round_half_even (?x * of_int N)) :: rat) \<le> of_int (?c * N)"
      by (simp only: of_int_le_iff)
    then show ?thesis using Npos by (simp add: r field_simps)
  qed
  have down: "of_int ?c - 1 < binary64_quotient a b"
  proof -
    have "of_int (?c - 1) < ?x" by (metis ceiling_less_iff diff_less zero_less_one le_less linorder_not_less of_int_diff of_int_1
          less_ceiling_iff order_refl)
    then have "of_int ((?c - 1) * b) < (of_int a :: rat)"
      using pb by (simp add: field_simps)
    then have "(?c - 1) * b < a" by (simp only: of_int_less_iff)
    then have "(?c - 1) * b + 1 \<le> a" by simp
    then have "(of_int ((?c - 1) * b + 1) :: rat) \<le> of_int a" by (simp only: of_int_le_iff)
    then have "(of_int ((?c - 1) * b + 1) :: rat) / of_int b \<le> of_int a / of_int b"
      using pb by (intro divide_right_mono) simp_all
    moreover have "(of_int ((?c - 1) * b + 1) :: rat) / of_int b = of_int (?c - 1) + 1 / of_int b"
      using pb by (simp add: add_divide_distrib)
    ultimately have g: "of_int (?c - 1) + 1 / of_int b \<le> ?x" by simp
    have "1 / (2 * of_int N) < 1 / (of_int b :: rat)"
      using bN pb by (intro divide_strict_left_mono) simp_all
    with g have "of_int (?c - 1) + 1 / (2 * of_int N) < ?x" by simp
    then have "(of_int (?c - 1) + 1 / (2 * of_int N)) * of_int N < ?x * of_int N"
      using Npos by (intro mult_strict_right_mono) simp_all
    moreover have "(of_int (?c - 1) + 1 / (2 * of_int N)) * (of_int N :: rat) =
                   of_int ((?c - 1) * N) + 1 / 2"
      using Npos by (simp add: distrib_right)
    ultimately have "of_int ((?c - 1) * N) + 1 / 2 < ?x * of_int N" by simp
    then have "(?c - 1) * N < round_half_even (?x * of_int N)" by (rule round_half_even_gt)
    then have "(of_int ((?c - 1) * N) :: rat) < of_int (round_half_even (?x * of_int N))"
      by (simp only: of_int_less_iff)
    then show ?thesis using Npos by (simp add: r field_simps)
  qed
  from up down show ?thesis by (simp add: ceiling_eq_iff)
qed

lemma binary64_quotient_nonneg:
  assumes "0 < a" "0 < b"
  shows "0 \<le> binary64_quotient a b"
proof -
  have "(0 :: rat) \<le> of_int a / of_int b / 2 powi (max (floor_log2 a b) (- 1022) - 52)"
    using assms by simp
  then have "0 \<le> round_half_even (of_int a / of_int b / 2 powi (max (floor_log2 a b) (- 1022) - 52))"
    using round_half_even_ge [of 0] by simp
  then show ?thesis by (simp add: binary64_quotient_def Let_def)
qed

lemma binary64_quotient_le_1:
  assumes a: "0 < a" and ab: "a < b"
  shows "binary64_quotient a b \<le> 1"
proof -
  let ?x = "(of_int a :: rat) / of_int b"
  let ?e = "max (floor_log2 a b) (- 1022)"
  have b: "0 < b" using a ab by simp
  have x1: "?x < 1" using ab b by simp
  have lo: "(2 :: rat) powi floor_log2 a b \<le> ?x"
    using floor_log2_bounds [OF a b] by simp
  have "floor_log2 a b < 0"
  proof (rule ccontr)
    assume "\<not> floor_log2 a b < 0"
    then have "(2 :: rat) powi 0 \<le> 2 powi floor_log2 a b"
      by (intro power_int_increasing) simp_all
    with lo x1 show False by simp
  qed
  then have e: "?e - 52 \<le> 0" by simp
  define N :: int where "N = 2 ^ nat (- (?e - 52))"
  have Npos: "0 < N" by (simp add: N_def)
  have u: "(2 :: rat) powi (?e - 52) = 1 / of_int N"
    using powi_neg_eq [OF e] by (simp add: N_def)
  have r: "binary64_quotient a b = of_int (round_half_even (?x * of_int N)) / of_int N"
    by (simp add: binary64_quotient_def Let_def u)
  have "?x * of_int N \<le> 1 * of_int N"
    using x1 Npos by (intro mult_right_mono) simp_all
  then have "?x * of_int N \<le> of_int N" by simp
  then have "round_half_even (?x * of_int N) \<le> N" by (rule round_half_even_le)
  then have "(of_int (round_half_even (?x * of_int N)) :: rat) \<le> of_int N"
    by (simp only: of_int_le_iff)
  then show ?thesis using Npos by (simp add: r)
qed

lemma below_of_ceiling:
  assumes "\<lceil>r :: rat\<rceil> \<le> n" and "n < 2 ^ 53"
  shows "r < 2 ^ 1024"
proof -
  have "r \<le> of_int \<lceil>r\<rceil>" by (rule le_of_int_ceiling)
  also have "(of_int \<lceil>r\<rceil> :: rat) \<le> of_int n" using assms(1) by (simp only: of_int_le_iff)
  also have "(of_int n :: rat) < of_int (2 ^ 53)" using assms(2) by (simp only: of_int_less_iff)
  also have "(of_int (2 ^ 53) :: rat) = 2 ^ 53" by simp
  also have "(2 :: rat) ^ 53 < 2 ^ 1024" by simp
  finally show ?thesis .
qed

lemma quotient_ceiling_le:
  assumes "0 < a" "0 < b"
  shows "\<lceil>(of_int a :: rat) / of_int b\<rceil> \<le> a"
proof -
  have "(of_int a :: rat) / of_int b \<le> of_int a / 1"
    using assms by (intro divide_left_mono) simp_all
  then show ?thesis by (simp add: ceiling_le_iff)
qed

lemma py_truediv_small:
  assumes b: "0 < b" and a53: "\<bar>a\<bar> < 2 ^ 53"
  shows "\<exists>r. py_truediv a b = Inr (Num r) \<and>
             max 1 \<lceil>r\<rceil> = max 1 \<lceil>(of_int a :: rat) / of_int b\<rceil>"
proof -
  let ?r = "binary64_quotient \<bar>a\<bar> \<bar>b\<bar>"
  have bb: "\<bar>b\<bar> = b" using b by simp
  consider "a = 0" | "a < 0" | "0 < a" "a < b" | "0 < a" "b \<le> a" by linarith
  then show ?thesis
  proof cases
    case 1
    then show ?thesis using b by (simp add: py_truediv_def)
  next
    case 2
    then have pa: "0 < \<bar>a\<bar>" by simp
    have nn: "0 \<le> ?r" using pa b by (intro binary64_quotient_nonneg) simp_all
    have small: "?r < 2 ^ 1024"
    proof (cases "\<bar>a\<bar> < b")
      case True
      then have "?r \<le> 1" using pa bb binary64_quotient_le_1 [of "\<bar>a\<bar>" b] by simp
      also have "(1 :: rat) < 2 ^ 1024" by simp
      finally show ?thesis .
    next
      case False
      then have "b \<le> \<bar>a\<bar>" by simp
      from binary64_quotient_ceiling [OF b this a53]
      have c: "\<lceil>binary64_quotient \<bar>a\<bar> b\<rceil> = \<lceil>(of_int \<bar>a\<bar> :: rat) / of_int b\<rceil>" .
      have "\<lceil>binary64_quotient \<bar>a\<bar> b\<rceil> \<le> \<bar>a\<bar>"
        unfolding c using pa b by (rule quotient_ceiling_le)
      from below_of_ceiling [OF this a53] show ?thesis by (simp only: bb)
    qed
    have t: "py_truediv a b = Inr (Num (- ?r))"
      using 2 b small by (simp add: py_truediv_def Let_def)
    have "\<lceil>- ?r\<rceil> \<le> 0" using nn by (simp add: ceiling_le_iff)
    moreover have "\<lceil>(of_int a :: rat) / of_int b\<rceil> \<le> 0"
      using 2 b by (simp add: ceiling_le_iff divide_nonpos_pos)
    ultimately have "max 1 \<lceil>- ?r\<rceil> = max 1 \<lceil>(of_int a :: rat) / of_int b\<rceil>" by simp
    with t show ?thesis by blast
  next
    case 3
    have aa: "\<bar>a\<bar> = a" using 3 by simp
    have le: "binary64_quotient a b \<le> 1" using 3 by (intro binary64_quotient_le_1)
    have "binary64_quotient a b < 2 ^ 1024"
    proof -
      note le
      also have "(1 :: rat) < 2 ^ 1024" by simp
      finally show ?thesis .
    qed
    then have t: "py_truediv a b = Inr (Num (binary64_quotient a b))"
      using 3 b by (simp add: py_truediv_def Let_def)
    have "\<lceil>binary64_quotient a b\<rceil> \<le> 1" using le by (simp add: ceiling_le_iff)
    moreover have "\<lceil>(of_int a :: rat) / of_int b\<rceil> \<le> 1"
      using 3 b by (simp add: ceiling_le_iff)
    ultimately have "max 1 \<lceil>binary64_quotient a b\<rceil> = max 1 \<lceil>(of_int a :: rat) / of_int b\<rceil>"
      by simp
    with t show ?thesis by blast
  next
    case 4
    have a53': "a < 2 ^ 53" using a53 4 by simp
    from binary64_quotient_ceiling [OF b 4(2) a53']
    have c: "\<lceil>binary64_quotient a b\<rceil> = \<lceil>(of_int a :: rat) / of_int b\<rceil>" .
    have "\<lceil>binary64_quotient a b\<rceil> \<le> a"
      unfolding c using 4(1) b by (rule quotient_ceiling_le)
    from below_of_ceiling [OF this a53'] have small: "binary64_quotient a b < 2 ^ 1024" .
    have t: "py_truediv a b = Inr (Num (binary64_quotient a b))"
      using 4 b small by (simp add: py_truediv_def Let_def)
    with c show ?thesis by simp
  qed
qed

lemma binary64_quotient_large:
  assumes a: "0 < a" and b: "0 < b" and big: "of_int b * (2 :: rat) ^ 1024 \<le> of_int a"
  shows "2 ^ 1024 \<le> binary64_quotient a b"
proof -
  let ?x = "(of_int a :: rat) / of_int b"
  let ?e = "floor_log2 a b"
  let ?u = "(2 :: rat) powi (?e - 52)"
  have pb: "(0 :: rat) < of_int b" using b by simp
  have x: "(2 :: rat) powi 1024 \<le> ?x" using big pb by (simp add: field_simps)
  have lo: "(2 :: rat) powi ?e \<le> ?x" and hi: "?x < (2 :: rat) powi (?e + 1)"
    using floor_log2_bounds [OF a b] by simp_all
  have e: "1024 \<le> ?e"
  proof (rule ccontr)
    assume "\<not> 1024 \<le> ?e"
    then have "?e + 1 \<le> 1024" by simp
    then have "(2 :: rat) powi (?e + 1) \<le> 2 powi 1024"
      by (intro power_int_increasing) simp_all
    with hi x show False by simp
  qed
  then have emax: "max ?e (- 1022) = ?e" by simp
  have u: "0 < ?u" by simp
  have "(2 :: rat) powi 52 = 2 powi ?e / ?u"
    by (simp add: power_int_diff [symmetric])
  also have "\<dots> \<le> ?x / ?u" using lo u by (intro divide_right_mono) simp_all
  finally have "(of_int (2 ^ 52) :: rat) \<le> ?x / ?u" by simp
  then have "2 ^ 52 \<le> round_half_even (?x / ?u)" by (rule round_half_even_ge)
  then have "(of_int (2 ^ 52) :: rat) \<le> of_int (round_half_even (?x / ?u))"
    by (simp only: of_int_le_iff)
  then have A: "(of_int (2 ^ 52) :: rat) * ?u \<le> of_int (round_half_even (?x / ?u)) * ?u"
    using u by (intro mult_right_mono) simp_all
  have B: "(2 :: rat) powi ?e = of_int (2 ^ 52) * ?u"
  proof -
    have "(2 :: rat) powi (52 + (?e - 52)) = 2 powi 52 * ?u"
      by (rule power_int_add) simp
    moreover have "52 + (?e - 52) = ?e" by simp
    moreover have "(2 :: rat) powi 52 = of_int (2 ^ 52)" by simp
    ultimately show ?thesis by simp
  qed
  have "(2 :: rat) powi 1024 \<le> 2 powi ?e"
    using e by (intro power_int_increasing) simp_all
  also note B
  also note A
  finally have "(2 :: rat) powi 1024 \<le> of_int (round_half_even (?x / ?u)) * ?u" .
  moreover have "(2 :: rat) powi 1024 = 2 ^ 1024" by simp
  ultimately have "(2 :: rat) ^ 1024 \<le> of_int (round_half_even (?x / ?u)) * ?u"
    by (simp only:)
  then show ?thesis by (simp add: binary64_quotient_def Let_def emax)
qed

lemma py_truediv_overflow:
  assumes "0 < b" and "of_int b * (2 :: rat) ^ 1024 \<le> of_int \<bar>a\<bar>"
  shows "py_truediv a b = Inl OverflowError"
proof -
  have "(0 :: rat) < of_int b * 2 ^ 1024" using assms(1) by simp
  from this assms(2) have "(0 :: rat) < of_int \<bar>a\<bar>" by (rule less_le_trans)
  then have a: "0 < \<bar>a\<bar>" by (simp only: of_int_0_less_iff)
  have bb: "\<bar>b\<bar> = b" using assms(1) by simp
  from binary64_quotient_large [OF a assms(1) assms(2)]
  show ?thesis using a assms(1) by (simp add: py_truediv_def Let_def bb)
qed


lemma overflow_example_bound: "(10 :: rat) * 2 ^ 1024 \<le> 10 ^ 400" by simp

lemma py_truediv_overflow_example: "py_truediv (10 ^ 400) 10 = Inl OverflowError"
  using py_truediv_overflow [of 10 "10 ^ 400"] overflow_example_bound by simp

section \<open>Collector: the derived total\<close>

lemma spec_page_size_ge_1: "1 \<le> spec_page_size lib record"
  by (simp add: spec_page_size_def split: option.splits)

lemma derive_total_pages_count:
  assumes "response_text record = Some body" "body \<noteq> []" "json_loads lib body = Some (JDict d)"
    "dict_get d ''result'' = JDict res"
  shows "derive_total_pages lib record =
           (case py_int lib (dict_get res ''count'') of
              None \<Rightarrow> Inr 1
            | Some n \<Rightarrow>
                (case py_truediv n (spec_page_size lib record) of
                   Inl e \<Rightarrow> Inl e
                 | Inr q \<Rightarrow>
                     (case math_ceil q of
                        Inl e \<Rightarrow> Inl e
                      | Inr pages \<Rightarrow> Inr (max 1 pages))))"
  using assms
  by (simp add: derive_total_pages_def spec_page_size_def Let_def max.commute
        split: option.splits)

lemma derive_total_pages_small:
  assumes "response_text record = Some body" "body \<noteq> []" "json_loads lib body = Some (JDict d)"
    "dict_get d ''result'' = JDict res" "py_int lib (dict_get res ''count'') = Some n"
    "\<bar>n\<bar> < 2 ^ 53"
  shows "derive_total_pages lib record =
           Inr (max 1 \<lceil>(of_int n :: rat) / of_int (spec_page_size lib record)\<rceil>)"
proof -
  have pos: "0 < spec_page_size lib record"
    using spec_page_size_ge_1 [of lib "record"] by simp
  from py_truediv_small [OF pos assms(6)] obtain r where
    r: "py_truediv n (spec_page_size lib record) = Inr (Num r)" and
    c: "max 1 \<lceil>r\<rceil> = max 1 \<lceil>(of_int n :: rat) / of_int (spec_page_size lib record)\<rceil>"
    by blast
  show ?thesis
    unfolding derive_total_pages_count [OF assms(1-4)] by (simp add: assms(5) r c)
qed

lemma derive_total_pages_overflow:
  assumes "response_text record = Some body" "body \<noteq> []" "json_loads lib body = Some (JDict d)"
    "dict_get d ''result'' = JDict res" "py_int lib (dict_get res ''count'') = Some n"
    "of_int (spec_page_size lib record) * (2 :: rat) ^ 1024 \<le> of_int \<bar>n\<bar>"
  shows "derive_total_pages lib record = Inl OverflowError"
proof -
  have pos: "0 < spec_page_size lib record"
    using spec_page_size_ge_1 [of lib "record"] by simp
  show ?thesis
    unfolding derive_total_pages_count [OF assms(1-4)]
    by (simp add: assms(5) py_truediv_overflow [OF pos assms(6)])
qed





lemma demo_lib_count_loads:
  "json_loads (demo_lib_count v) s = Some (JDict [(''result'', JDict [(''count'', v)])])"
  by (simp add: demo_lib_count_def)


lemma demo_huge_count_bound: "of_int 10 * (2 :: rat) ^ 1024 \<le> of_int \<bar>demo_huge_count\<bar>"
  by (simp add: demo_huge_count_def)




section \<open>Collector: the number of pages\<close>

lemma derive_total_pages_ge_1: "derive_total_pages lib record = Inr t \<Longrightarrow> 1 \<le> t"
  by (auto simp: derive_total_pages_def Let_def split: option.splits json.splits sum.splits
        if_splits)

lemma fetch_market_page_page:
  "RawFetchRecord.page (fetch_market_page lib cl now cfg mkt page_no) = page_no"
  by (simp add: fetch_market_page_def Let_def split: sum.splits prod.splits)

lemma pages_to_fetch_spec: "pages_to_fetch t cap = spec_page_bound t cap"
  by (simp add: pages_to_fetch_def spec_page_bound_def Let_def min.assoc)

lemma spec_page_bound_ge_1: "1 \<le> t \<Longrightarrow> 1 \<le> spec_page_bound t cap"
  by (simp add: spec_page_bound_def)

lemma collect_markets_none:
  "\<forall>m\<in>set ms. snd (collect_market lib cl now cfg m) = None \<Longrightarrow>
     collect_markets lib cl now cfg ms store =
       (store @ concat (map (\<lambda>m. fst (collect_market lib cl now cfg m)) ms), None)"
proof (induction ms arbitrary: store)
  case Nil
  show ?case by simp
next
  case (Cons m ms)
  have m: "collect_market lib cl now cfg m = (fst (collect_market lib cl now cfg m), None)"
    using Cons.prems by (simp add: prod_eq_iff)
  have rest: "\<forall>m\<in>set ms. snd (collect_market lib cl now cfg m) = None"
    using Cons.prems by simp
  have "collect_markets lib cl now cfg (m # ms) store =
          collect_markets lib cl now cfg ms (store @ fst (collect_market lib cl now cfg m))"
    by (subst collect_markets.simps(2), subst m) simp
  then show ?case by (simp add: Cons.IH [OF rest])
qed

lemma collect_markets_raise:
  "\<forall>m\<in>set pre. snd (collect_market lib cl now cfg m) = None \<Longrightarrow>
   snd (collect_market lib cl now cfg mkt) = Some e \<Longrightarrow>
     collect_markets lib cl now cfg (pre @ mkt # post) store =
       (store @ concat (map (\<lambda>m. fst (collect_market lib cl now cfg m)) (pre @ [mkt])), Some e)"
proof (induction pre arbitrary: store)
  case Nil
  have m: "collect_market lib cl now cfg mkt = (fst (collect_market lib cl now cfg mkt), Some e)"
    using Nil.prems(2) by (simp add: prod_eq_iff)
  have "collect_markets lib cl now cfg (mkt # post) store =
          (store @ fst (collect_market lib cl now cfg mkt), Some e)"
    by (subst collect_markets.simps(2), subst m) simp
  then show ?case by simp
next
  case (Cons m pre)
  have m: "collect_market lib cl now cfg m = (fst (collect_market lib cl now cfg m), None)"
    using Cons.prems(1) by (simp add: prod_eq_iff)
  have rest: "\<forall>m\<in>set pre. snd (collect_market lib cl now cfg m) = None"
    using Cons.prems(1) by simp
  have "collect_markets lib cl now cfg ((m # pre) @ mkt # post) store =
          collect_markets lib cl now cfg (pre @ mkt # post)
            (store @ fst (collect_market lib cl now cfg m))"
    by (simp only: append_Cons, subst collect_markets.simps(2), subst m) simp
  then show ?case by (simp add: Cons.IH [OF rest Cons.prems(2)])
qed

lemma collect_market_raises:
  "derive_total_pages lib (fetch_market_page lib cl now cfg mkt 1) = Inl e \<Longrightarrow>
     collect_market lib cl now cfg mkt = ([fetch_market_page lib cl now cfg mkt 1], Some e)"
  by (simp add: collect_market_def Let_def)

lemma collect_market_pages:
  assumes "derive_total_pages lib (fetch_market_page lib cl now cfg mkt 1) = Inr t"
  shows "map RawFetchRecord.page (fst (collect_market lib cl now cfg mkt)) =
           [1..spec_page_bound t (max_pages (collector cfg))]"
proof -
  let ?n = "spec_page_bound t (max_pages (collector cfg))"
  have ge: "1 \<le> ?n" using assms by (simp add: spec_page_bound_ge_1 derive_total_pages_ge_1)
  show ?thesis
  proof (cases "?n \<le> 1")
    case True
    with ge have "?n = 1" by simp
    then show ?thesis using assms
      by (simp add: collect_market_def Let_def pages_to_fetch_spec fetch_market_page_page)
  next
    case False
    have "[1..?n] = 1 # [2..?n]" using False by (simp add: upto_rec1)
    then show ?thesis using False assms
      by (simp add: collect_market_def Let_def pages_to_fetch_spec fetch_market_page_page
            comp_def map_idI)
  qed
qed

text \<open>
  C7. For every market, when a total \<open>t\<close> is derived from page 1, the pages fetched are
  the pages from 1 to the bound, where the bound is the least of \<open>t\<close>, the manual cap when
  it is positive, and the safety cap of 200; so their number does not exceed (it equals)
  the bound, and when the bound is 1 or less, page 1 is the only page fetched. When the
  derivation of the total raises an exception, page 1 is the only page fetched and the
  exception ends the cycle. A cycle stores, market by market, the records of these fetches
  and no other: of all markets when none raises, and of the markets up to the first one
  that raises otherwise.
\<close>

theorem fetched_pages_bounded:
  "(derive_total_pages lib (fetch_market_page lib cl now cfg mkt 1) = Inr t \<longrightarrow>
      int (length (fst (collect_market lib cl now cfg mkt))) \<le>
        spec_page_bound t (max_pages (collector cfg)) \<and>
      map RawFetchRecord.page (fst (collect_market lib cl now cfg mkt)) =
        [1..spec_page_bound t (max_pages (collector cfg))] \<and>
      (spec_page_bound t (max_pages (collector cfg)) \<le> 1 \<longrightarrow>
         collect_market lib cl now cfg mkt = ([fetch_market_page lib cl now cfg mkt 1], None)) \<and>
      snd (collect_market lib cl now cfg mkt) = None) \<and>
   (derive_total_pages lib (fetch_market_page lib cl now cfg mkt 1) = Inl e \<longrightarrow>
      collect_market lib cl now cfg mkt = ([fetch_market_page lib cl now cfg mkt 1], Some e)) \<and>
   ((\<forall>m\<in>set (markets cfg). snd (collect_market lib cl now cfg m) = None) \<longrightarrow>
      collect_once lib cl now cfg store =
        (store @ concat (map (\<lambda>m. fst (collect_market lib cl now cfg m)) (markets cfg)), None)) \<and>
   (markets cfg = pre @ mkt # post \<and>
    (\<forall>m\<in>set pre. snd (collect_market lib cl now cfg m) = None) \<and>
    snd (collect_market lib cl now cfg mkt) = Some e \<longrightarrow>
      collect_once lib cl now cfg store =
        (store @ concat (map (\<lambda>m. fst (collect_market lib cl now cfg m)) (pre @ [mkt])),
         Some e))"
proof -
  let ?d = "derive_total_pages lib (fetch_market_page lib cl now cfg mkt 1)"
  let ?n = "spec_page_bound t (max_pages (collector cfg))"
  have total: "?d = Inr t \<longrightarrow>
      int (length (fst (collect_market lib cl now cfg mkt))) \<le> ?n \<and>
      map RawFetchRecord.page (fst (collect_market lib cl now cfg mkt)) = [1..?n] \<and>
      (?n \<le> 1 \<longrightarrow>
         collect_market lib cl now cfg mkt = ([fetch_market_page lib cl now cfg mkt 1], None)) \<and>
      snd (collect_market lib cl now cfg mkt) = None"
  proof
    assume d: "?d = Inr t"
    have ge: "1 \<le> ?n" using d by (simp add: spec_page_bound_ge_1 derive_total_pages_ge_1)
    have pages: "map RawFetchRecord.page (fst (collect_market lib cl now cfg mkt)) = [1..?n]"
      using d by (rule collect_market_pages)
    have "length (map RawFetchRecord.page (fst (collect_market lib cl now cfg mkt))) =
            length [1..?n]"
      by (simp only: pages)
    then have len: "int (length (fst (collect_market lib cl now cfg mkt))) \<le> ?n"
      using ge by simp
    have one: "?n \<le> 1 \<longrightarrow>
        collect_market lib cl now cfg mkt = ([fetch_market_page lib cl now cfg mkt 1], None)"
      using d by (simp add: collect_market_def Let_def pages_to_fetch_spec)
    have ok: "snd (collect_market lib cl now cfg mkt) = None"
      using d by (simp add: collect_market_def Let_def)
    from len pages one ok
    show "int (length (fst (collect_market lib cl now cfg mkt))) \<le> ?n \<and>
      map RawFetchRecord.page (fst (collect_market lib cl now cfg mkt)) = [1..?n] \<and>
      (?n \<le> 1 \<longrightarrow>
         collect_market lib cl now cfg mkt = ([fetch_market_page lib cl now cfg mkt 1], None)) \<and>
      snd (collect_market lib cl now cfg mkt) = None"
      by (intro conjI)
  qed
  have raised: "?d = Inl e \<longrightarrow>
      collect_market lib cl now cfg mkt = ([fetch_market_page lib cl now cfg mkt 1], Some e)"
    by (simp add: collect_market_raises)
  have all: "(\<forall>m\<in>set (markets cfg). snd (collect_market lib cl now cfg m) = None) \<longrightarrow>
      collect_once lib cl now cfg store =
        (store @ concat (map (\<lambda>m. fst (collect_market lib cl now cfg m)) (markets cfg)), None)"
    by (simp add: collect_once_def collect_markets_none)
  have part: "markets cfg = pre @ mkt # post \<and>
    (\<forall>m\<in>set pre. snd (collect_market lib cl now cfg m) = None) \<and>
    snd (collect_market lib cl now cfg mkt) = Some e \<longrightarrow>
      collect_once lib cl now cfg store =
        (store @ concat (map (\<lambda>m. fst (collect_market lib cl now cfg m)) (pre @ [mkt])),
         Some e)"
  proof
    assume h: "markets cfg = pre @ mkt # post \<and>
      (\<forall>m\<in>set pre. snd (collect_market lib cl now cfg m) = None) \<and>
      snd (collect_market lib cl now cfg mkt) = Some e"
    then have a: "\<forall>m\<in>set pre. snd (collect_market lib cl now cfg m) = None"
      and b: "snd (collect_market lib cl now cfg mkt) = Some e"
      and c: "markets cfg = pre @ mkt # post"
      by simp_all
    show "collect_once lib cl now cfg store =
        (store @ concat (map (\<lambda>m. fst (collect_market lib cl now cfg m)) (pre @ [mkt])),
         Some e)"
      unfolding collect_once_def c by (rule collect_markets_raise [OF a b])
  qed
  from total raised all part show ?thesis by (intro conjI)
qed

lemma demo_fetch_up:
  "response_text (fetch_market_page lib demo_client_up 0 demo_cfg demo_market 1) =
     Some demo_body_whole"
  by (simp add: fetch_market_page_def request_def demo_client_up_def Let_def)

lemma demo_fetch_down:
  "response_text (fetch_market_page lib demo_client_down 0 demo_cfg demo_market 1) = None"
  by (simp add: fetch_market_page_def request_def demo_client_down_def Let_def)

lemma demo_fetch_body:
  "str_format lib ''10'' = (\<lambda>ctx. Some ''10'') \<Longrightarrow>
   request_body (fetch_market_page lib cl 0 demo_cfg demo_market 1) = [(''size'', JStr ''10'')]"
  by (simp add: fetch_market_page_def Let_def build_body_def demo_cfg_def demo_endpoint_def
        split: sum.splits prod.splits)

lemma demo_lib_format: "str_format demo_lib ''10'' = (\<lambda>ctx. Some ''10'')"
  by (simp add: demo_lib_def)

lemma demo_lib_count_format: "str_format (demo_lib_count v) ''10'' = (\<lambda>ctx. Some ''10'')"
  by (simp add: demo_lib_count_def demo_lib_def)

lemma demo_fetch_size:
  "str_format lib ''10'' = (\<lambda>ctx. Some ''10'') \<Longrightarrow> int_of_str lib ''10'' = Some 10 \<Longrightarrow>
   spec_page_size lib (fetch_market_page lib cl 0 demo_cfg demo_market 1) = 10"
  by (simp add: spec_page_size_def demo_fetch_body)

lemma demo_total_up:
  "derive_total_pages demo_lib (fetch_market_page demo_lib demo_client_up 0 demo_cfg demo_market 1) =
     Inr 3"
proof -
  let ?r = "fetch_market_page demo_lib demo_client_up 0 demo_cfg demo_market 1"
  have body: "demo_body_whole \<noteq> []" by (simp add: demo_body_whole_def)
  have loads: "json_loads demo_lib demo_body_whole =
                 Some (JDict [(''result'', JDict [(''count'', JInt 25)])])"
    by (simp add: demo_lib_def)
  have res: "dict_get [(''result'', JDict [(''count'', JInt 25)])] ''result'' =
               JDict [(''count'', JInt 25)]"
    by (simp add: dict_get_def)
  have cnt: "py_int demo_lib (dict_get [(''count'', JInt 25)] ''count'') = Some 25"
    by (simp add: dict_get_def)
  have small: "\<bar>25 :: int\<bar> < 2 ^ 53" by simp
  have size: "spec_page_size demo_lib ?r = 10"
    by (rule demo_fetch_size) (simp_all add: demo_lib_def)
  have c: "max 1 \<lceil>rat_of_int 25 / rat_of_int 10\<rceil> = 3" by code_simp
  show ?thesis
    using derive_total_pages_small [OF demo_fetch_up body loads res cnt small] size c by simp
qed

lemma demo_total_down:
  "derive_total_pages demo_lib (fetch_market_page demo_lib demo_client_down 0 demo_cfg demo_market 1) =
     Inr 1"
  by (simp add: derive_total_pages_def demo_fetch_down)

lemma demo_total_raises:
  "derive_total_pages (demo_lib_count (JInt demo_huge_count))
     (fetch_market_page (demo_lib_count (JInt demo_huge_count)) demo_client_up 0 demo_cfg
        demo_market 1) = Inl OverflowError"
proof -
  let ?lib = "demo_lib_count (JInt demo_huge_count)"
  let ?r = "fetch_market_page ?lib demo_client_up 0 demo_cfg demo_market 1"
  have body: "demo_body_whole \<noteq> []" by (simp add: demo_body_whole_def)
  have res: "dict_get [(''result'', JDict [(''count'', JInt demo_huge_count)])] ''result'' =
               JDict [(''count'', JInt demo_huge_count)]"
    by (simp add: dict_get_def)
  have cnt: "py_int ?lib (dict_get [(''count'', JInt demo_huge_count)] ''count'') =
               Some demo_huge_count"
    by (simp add: dict_get_def)
  have size: "spec_page_size ?lib ?r = 10"
    by (rule demo_fetch_size) (simp_all add: demo_lib_count_def demo_lib_def)
  have bound: "of_int (spec_page_size ?lib ?r) * (2 :: rat) ^ 1024 \<le> of_int \<bar>demo_huge_count\<bar>"
    unfolding size by (rule demo_huge_count_bound)
  show ?thesis
    by (rule derive_total_pages_overflow [OF demo_fetch_up body demo_lib_count_loads res cnt bound])
qed

theorem fetched_pages_bounded_witness:
  "map RawFetchRecord.page (fst (collect_market demo_lib demo_client_up 0 demo_cfg demo_market)) =
     [1, 2] \<and>
   length (fst (collect_market demo_lib demo_client_up 0 demo_cfg demo_market)) \<le> 2 \<and>
   collect_market demo_lib demo_client_down 0 demo_cfg demo_market =
     ([fetch_market_page demo_lib demo_client_down 0 demo_cfg demo_market 1], None) \<and>
   collect_market (demo_lib_count (JInt demo_huge_count)) demo_client_up 0 demo_cfg demo_market =
     ([fetch_market_page (demo_lib_count (JInt demo_huge_count)) demo_client_up 0 demo_cfg
         demo_market 1], Some OverflowError) \<and>
   collect_once demo_lib demo_client_up 0 demo_cfg [] =
     (fst (collect_market demo_lib demo_client_up 0 demo_cfg demo_market), None) \<and>
   collect_once (demo_lib_count (JInt demo_huge_count)) demo_client_up 0 demo_cfg [] =
     ([fetch_market_page (demo_lib_count (JInt demo_huge_count)) demo_client_up 0 demo_cfg
         demo_market 1], Some OverflowError)"
proof -
  let ?huge = "demo_lib_count (JInt demo_huge_count)"
  note T = fetched_pages_bounded
  have cap: "max_pages (collector demo_cfg) = 2" by (simp add: demo_cfg_def)
  have mk: "markets demo_cfg = [demo_market]" by (simp add: demo_cfg_def)
  have up: "spec_page_bound 3 2 = 2" by (simp add: spec_page_bound_def)
  have down: "spec_page_bound 1 2 = 1" by (simp add: spec_page_bound_def)
  have l: "[1..2] = [1, 2::int]" by (simp add: upto_rec1)
  have a: "map RawFetchRecord.page (fst (collect_market demo_lib demo_client_up 0 demo_cfg demo_market)) =
     [1, 2]"
    using T [of demo_lib demo_client_up 0 demo_cfg demo_market 3] demo_total_up
    by (simp add: cap up l)
  have b: "length (fst (collect_market demo_lib demo_client_up 0 demo_cfg demo_market)) \<le> 2"
    using T [of demo_lib demo_client_up 0 demo_cfg demo_market 3] demo_total_up
    by (simp add: cap up l)
  have ok: "snd (collect_market demo_lib demo_client_up 0 demo_cfg demo_market) = None"
    using T [of demo_lib demo_client_up 0 demo_cfg demo_market 3] demo_total_up
    by (simp add: cap up l)
  have c: "collect_market demo_lib demo_client_down 0 demo_cfg demo_market =
     ([fetch_market_page demo_lib demo_client_down 0 demo_cfg demo_market 1], None)"
    using T [of demo_lib demo_client_down 0 demo_cfg demo_market 1] demo_total_down
    by (simp add: cap down)
  have d: "collect_market ?huge demo_client_up 0 demo_cfg demo_market =
     ([fetch_market_page ?huge demo_client_up 0 demo_cfg demo_market 1], Some OverflowError)"
    using T [of ?huge demo_client_up 0 demo_cfg demo_market _ OverflowError] demo_total_raises
    by simp
  have e: "collect_once demo_lib demo_client_up 0 demo_cfg [] =
     (fst (collect_market demo_lib demo_client_up 0 demo_cfg demo_market), None)"
    using T [of demo_lib demo_client_up 0 demo_cfg demo_market _ _ "[]"] ok
    by (simp add: mk)
  have f: "collect_once ?huge demo_client_up 0 demo_cfg [] =
     ([fetch_market_page ?huge demo_client_up 0 demo_cfg demo_market 1], Some OverflowError)"
    using T [of ?huge demo_client_up 0 demo_cfg demo_market _ OverflowError "[]" "[]" "[]"] d
    by (simp add: mk)
  from a b c d e f show ?thesis by (intro conjI)
qed

section \<open>Extractor: locating the list of offers\<close>













section \<open>Extractor: the fields of an item\<close>

lemma first_present_absent:
  "\<forall>k\<in>set keys. map_of d k = None \<Longrightarrow> first_present d keys = JNull"
  by (induction keys) simp_all

lemma first_present_spec:
  "first_present d keys =
     (case spec_first_key d keys of Some k \<Rightarrow> dict_get d k | None \<Rightarrow> JNull)"
  by (induction keys) (auto simp: spec_first_key_def dict_get_def split: option.splits)

lemma spec_first_key_None:
  "spec_first_key d keys = None \<longleftrightarrow> (\<forall>k\<in>set keys. map_of d k = None)"
  by (auto simp: spec_first_key_def find_None_iff)

lemma py_or_spec_lookup:
  assumes "truthy (first_present sub keys) \<or> spec_first_key sub keys = None"
  shows "py_or (first_present sub keys) (first_present item keys) = spec_lookup sub item keys"
proof (cases "spec_first_key sub keys")
  case None
  then have "first_present sub keys = JNull" by (simp add: first_present_spec)
  with None show ?thesis
    by (simp add: py_or_def spec_lookup_def first_present_spec [of item])
next
  case (Some k)
  with assms have "truthy (first_present sub keys)" by simp
  with Some show ?thesis
    by (simp add: py_or_def spec_lookup_def first_present_spec [of sub])
qed

lemma parse_item_Some:
  assumes "parse_item lib record item = Some x"
  shows "to_float lib (py_or (first_present (item_adv item) PRICE_KEYS)
                             (first_present item PRICE_KEYS)) = Some (price_fiat_per_usdt x)"
    and "to_float lib (py_or (first_present (item_adv item) MIN_KEYS)
                             (first_present item MIN_KEYS)) = Some (min_fiat x)"
    and "to_float lib (py_or (first_present (item_adv item) MAX_KEYS)
                             (first_present item MAX_KEYS)) = Some (max_fiat x)"
    and "is_merchant x =
           (if py_or (first_present (item_advertiser item) MERCHANT_KEYS)
                     (first_present item MERCHANT_KEYS) \<noteq> JNull
            then Some (truthy (py_or (first_present (item_advertiser item) MERCHANT_KEYS)
                                     (first_present item MERCHANT_KEYS)))
            else None)"
    and "rating x = to_float lib (py_or (first_present (item_advertiser item) RATING_KEYS)
                                        (first_present item RATING_KEYS))"
    and "advertiser_key x =
           (if py_or (first_present (item_advertiser item) ADVERTISER_KEYS)
                     (first_present item ADVERTISER_KEYS) \<noteq> JNull
            then Some (py_str lib (py_or (first_present (item_advertiser item) ADVERTISER_KEYS)
                                         (first_present item ADVERTISER_KEYS)))
            else None)"
    and "payment_methods x = extract_payment_methods lib item"
  using assms
  by (auto simp: parse_item_def Let_def split: option.splits)

text \<open>
  C10. When the first merchant alias present in the advertiser sub-object of an item holds
  \<open>false\<close> and the item itself has no merchant alias key, the offer made from the item
  has an unknown merchant flag: the \<open>or\<close> passes over the \<open>false\<close> to the lookup in the
  item, which finds nothing.
\<close>

theorem merchant_false_is_unknown:
  "first_present (item_advertiser item) MERCHANT_KEYS = JBool False \<Longrightarrow>
   \<forall>k\<in>set MERCHANT_KEYS. map_of item k = None \<Longrightarrow>
   parse_item lib record item = Some x \<Longrightarrow>
   is_merchant x = None"
  by (simp add: parse_item_Some(4) first_present_absent py_or_def)

theorem merchant_false_is_unknown_witness:
  "first_present (item_advertiser demo_item_no_merchant) MERCHANT_KEYS = JBool False \<and>
   first_present demo_item_no_merchant MERCHANT_KEYS = JNull \<and>
   map_option price_fiat_per_usdt (parse_item demo_lib (demo_record None []) demo_item_no_merchant) =
     Some (Num 30) \<and>
   map_option is_merchant (parse_item demo_lib (demo_record None []) demo_item_no_merchant) =
     Some None"
proof -
  have a: "first_present (item_advertiser demo_item_no_merchant) MERCHANT_KEYS = JBool False"
    by (simp add: item_advertiser_def demo_item_no_merchant_def MERCHANT_KEYS_def dict_get_def
          py_or_def)
  have b: "\<forall>k\<in>set MERCHANT_KEYS. map_of demo_item_no_merchant k = None"
    by (simp add: demo_item_no_merchant_def MERCHANT_KEYS_def)
  have c: "first_present demo_item_no_merchant MERCHANT_KEYS = JNull"
    by (simp add: demo_item_no_merchant_def MERCHANT_KEYS_def)
  obtain x where x: "parse_item demo_lib (demo_record None []) demo_item_no_merchant = Some x"
    and p: "price_fiat_per_usdt x = Num 30"
    by (simp add: parse_item_def item_adv_def item_advertiser_def demo_item_no_merchant_def
          dict_get_def py_or_def PRICE_KEYS_def MIN_KEYS_def MAX_KEYS_def Let_def)
  from merchant_false_is_unknown [OF a b x] have "is_merchant x = None" .
  with a c x p show ?thesis by simp
qed

text \<open>
  C5, as amended. For an item that yields an offer, each field is read through the lookup
  of the specification (first present key of the ordered alias list, nested sub-object
  before the item) whenever the nested sub-object holds a truthy value under its first
  present alias key, or holds no alias key of the field. The nested sub-object is \<open>adv\<close>
  (or \<open>advertisement\<close>) for price, minimum and maximum, and \<open>advertiser\<close> (or \<open>user\<close>)
  for the merchant flag, the rating and the advertiser key. The payment methods are read
  from the item alone: without a payment alias key at the top level the list is empty.
\<close>

theorem alias_lookup_nested_first:
  "parse_item lib record item = Some x \<Longrightarrow>
   (truthy (first_present (item_adv item) PRICE_KEYS) \<or>
    spec_first_key (item_adv item) PRICE_KEYS = None \<longrightarrow>
      to_float lib (spec_lookup (item_adv item) item PRICE_KEYS) = Some (price_fiat_per_usdt x)) \<and>
   (truthy (first_present (item_adv item) MIN_KEYS) \<or>
    spec_first_key (item_adv item) MIN_KEYS = None \<longrightarrow>
      to_float lib (spec_lookup (item_adv item) item MIN_KEYS) = Some (min_fiat x)) \<and>
   (truthy (first_present (item_adv item) MAX_KEYS) \<or>
    spec_first_key (item_adv item) MAX_KEYS = None \<longrightarrow>
      to_float lib (spec_lookup (item_adv item) item MAX_KEYS) = Some (max_fiat x)) \<and>
   (truthy (first_present (item_advertiser item) MERCHANT_KEYS) \<or>
    spec_first_key (item_advertiser item) MERCHANT_KEYS = None \<longrightarrow>
      is_merchant x =
        (if spec_lookup (item_advertiser item) item MERCHANT_KEYS \<noteq> JNull
         then Some (truthy (spec_lookup (item_advertiser item) item MERCHANT_KEYS))
         else None)) \<and>
   (truthy (first_present (item_advertiser item) RATING_KEYS) \<or>
    spec_first_key (item_advertiser item) RATING_KEYS = None \<longrightarrow>
      rating x = to_float lib (spec_lookup (item_advertiser item) item RATING_KEYS)) \<and>
   (truthy (first_present (item_advertiser item) ADVERTISER_KEYS) \<or>
    spec_first_key (item_advertiser item) ADVERTISER_KEYS = None \<longrightarrow>
      advertiser_key x =
        (if spec_lookup (item_advertiser item) item ADVERTISER_KEYS \<noteq> JNull
         then Some (py_str lib (spec_lookup (item_advertiser item) item ADVERTISER_KEYS))
         else None)) \<and>
   payment_methods x = extract_payment_methods lib item \<and>
   (spec_first_key item PAYMENT_KEYS = None \<longrightarrow> payment_methods x = [])"
proof -
  assume x: "parse_item lib record item = Some x"
  note L = py_or_spec_lookup [symmetric]
  have price: "truthy (first_present (item_adv item) PRICE_KEYS) \<or>
      spec_first_key (item_adv item) PRICE_KEYS = None \<longrightarrow>
      to_float lib (spec_lookup (item_adv item) item PRICE_KEYS) = Some (price_fiat_per_usdt x)"
    using parse_item_Some(1) [OF x] by (simp add: L)
  have minimum: "truthy (first_present (item_adv item) MIN_KEYS) \<or>
      spec_first_key (item_adv item) MIN_KEYS = None \<longrightarrow>
      to_float lib (spec_lookup (item_adv item) item MIN_KEYS) = Some (min_fiat x)"
    using parse_item_Some(2) [OF x] by (simp add: L)
  have maximum: "truthy (first_present (item_adv item) MAX_KEYS) \<or>
      spec_first_key (item_adv item) MAX_KEYS = None \<longrightarrow>
      to_float lib (spec_lookup (item_adv item) item MAX_KEYS) = Some (max_fiat x)"
    using parse_item_Some(3) [OF x] by (simp add: L)
  have merchant: "truthy (first_present (item_advertiser item) MERCHANT_KEYS) \<or>
      spec_first_key (item_advertiser item) MERCHANT_KEYS = None \<longrightarrow>
      is_merchant x =
        (if spec_lookup (item_advertiser item) item MERCHANT_KEYS \<noteq> JNull
         then Some (truthy (spec_lookup (item_advertiser item) item MERCHANT_KEYS))
         else None)"
    using parse_item_Some(4) [OF x] by (simp add: L)
  have rated: "truthy (first_present (item_advertiser item) RATING_KEYS) \<or>
      spec_first_key (item_advertiser item) RATING_KEYS = None \<longrightarrow>
      rating x = to_float lib (spec_lookup (item_advertiser item) item RATING_KEYS)"
    using parse_item_Some(5) [OF x] by (simp add: L)
  have advertiser: "truthy (first_present (item_advertiser item) ADVERTISER_KEYS) \<or>
      spec_first_key (item_advertiser item) ADVERTISER_KEYS = None \<longrightarrow>
      advertiser_key x =
        (if spec_lookup (item_advertiser item) item ADVERTISER_KEYS \<noteq> JNull
         then Some (py_str lib (spec_lookup (item_advertiser item) item ADVERTISER_KEYS))
         else None)"
    using parse_item_Some(6) [OF x] by (simp add: L)
  have pay: "payment_methods x = extract_payment_methods lib item"
    using parse_item_Some(7) [OF x] .
  have no_pay: "spec_first_key item PAYMENT_KEYS = None \<longrightarrow> payment_methods x = []"
    by (simp add: pay extract_payment_methods_def first_present_spec)
  from price minimum maximum merchant rated advertiser pay no_pay show ?thesis
    by (intro conjI)
qed

lemma demo_item_nested_adv:
  "item_adv demo_item_nested =
     [(''price'', JStr ''30.5''), (''minAmount'', JInt 100), (''maxAmount'', JInt 500),
      (''payments'', JList [JStr ''bank'']), (''isMerchant'', JBool True)]"
  by (simp add: item_adv_def demo_item_nested_def dict_get_def py_or_def)

lemma demo_item_nested_offer:
  "parse_item demo_lib (demo_record None []) demo_item_nested =
     Some \<lparr> ts_utc = 0, asset = ''USDT'', fiat = ''VND'', side = SELL,
            price_fiat_per_usdt = Num (61 / 2), min_fiat = Num 100, max_fiat = Num 500,
            payment_methods = [], is_merchant = None, rating = None, advertiser_key = None,
            market = Some ''VND_SELL'', page = Some 1 \<rparr>"
  by code_simp

theorem alias_lookup_nested_first_witness:
  "spec_lookup (item_adv demo_item_nested) demo_item_nested PRICE_KEYS = JStr ''30.5'' \<and>
   to_float demo_lib (JStr ''30.5'') = Some (Num (61 / 2)) \<and>
   map_option price_fiat_per_usdt (parse_item demo_lib (demo_record None []) demo_item_nested) =
     Some (Num (61 / 2)) \<and>
   spec_first_key demo_item_nested PAYMENT_KEYS = None \<and>
   map_option payment_methods (parse_item demo_lib (demo_record None []) demo_item_nested) =
     Some []"
proof -
  let ?x = "\<lparr> ts_utc = 0, asset = ''USDT'', fiat = ''VND'', side = SELL,
            price_fiat_per_usdt = Num (61 / 2), min_fiat = Num 100, max_fiat = Num 500,
            payment_methods = [], is_merchant = None, rating = None, advertiser_key = None,
            market = Some ''VND_SELL'', page = Some 1 \<rparr>"
  note T = alias_lookup_nested_first [OF demo_item_nested_offer]
  have a: "truthy (first_present (item_adv demo_item_nested) PRICE_KEYS)"
    by (simp add: demo_item_nested_adv PRICE_KEYS_def)
  have b: "spec_lookup (item_adv demo_item_nested) demo_item_nested PRICE_KEYS = JStr ''30.5''"
    by (simp add: demo_item_nested_adv spec_lookup_def spec_first_key_def PRICE_KEYS_def
          dict_get_def)
  have c: "spec_first_key demo_item_nested PAYMENT_KEYS = None"
    by (simp add: demo_item_nested_def spec_first_key_def PAYMENT_KEYS_def)
  from T a b have d: "to_float demo_lib (JStr ''30.5'') = Some (Num (61 / 2))"
    by simp
  from b c d show ?thesis
    by (simp add: demo_item_nested_offer)
qed

text \<open>
  C5 as it is stated fails on the payment methods and on the merchant flag: the
  \<open>adv\<close> sub-object of the item holds both, the lookup of the specification finds them
  there, and the offer has no payment method and an unknown merchant flag, since the code
  reads the payment methods from the item alone and the merchant flag from the advertiser
  sub-object and the item.
\<close>

theorem nested_payment_methods_counterexample:
  "spec_lookup (item_adv demo_item_nested) demo_item_nested PAYMENT_KEYS = JList [JStr ''bank''] \<and>
   extract_payment_methods demo_lib [(''payments'', JList [JStr ''bank''])] = [''bank''] \<and>
   map_option payment_methods (parse_item demo_lib (demo_record None []) demo_item_nested) =
     Some [] \<and>
   spec_lookup (item_adv demo_item_nested) demo_item_nested MERCHANT_KEYS = JBool True \<and>
   map_option is_merchant (parse_item demo_lib (demo_record None []) demo_item_nested) =
     Some None"
proof -
  have a: "spec_lookup (item_adv demo_item_nested) demo_item_nested PAYMENT_KEYS =
             JList [JStr ''bank'']"
    by (simp add: demo_item_nested_adv spec_lookup_def spec_first_key_def PAYMENT_KEYS_def
          dict_get_def)
  have b: "extract_payment_methods demo_lib [(''payments'', JList [JStr ''bank''])] = [''bank'']"
    by (simp add: extract_payment_methods_def PAYMENT_KEYS_def)
  have c: "spec_lookup (item_adv demo_item_nested) demo_item_nested MERCHANT_KEYS = JBool True"
    by (simp add: demo_item_nested_adv spec_lookup_def spec_first_key_def MERCHANT_KEYS_def
          dict_get_def)
  from a b c show ?thesis
    by (simp add: demo_item_nested_offer)
qed

text \<open>
  C4. The code drops an item whose three required fields are all present and numeric: in
  the \<open>adv\<close> sub-object the minimum is the number 0, which \<open>_to_float\<close> turns into 0.0,
  but the \<open>or\<close> of the lookup passes over the falsy 0 to the item, finds nothing there and
  the item is dropped; the record that carries this item yields no offer. The same three
  fields at the top level of the item do yield an offer, with the minimum 0.
\<close>

theorem zero_minimum_in_adv_dropped:
  "item_adv demo_item_zero_nested =
     [(''price'', JInt 30), (''minAmount'', JInt 0), (''maxAmount'', JInt 500)] \<and>
   to_float demo_lib (first_present (item_adv demo_item_zero_nested) PRICE_KEYS) = Some (Num 30) \<and>
   to_float demo_lib (first_present (item_adv demo_item_zero_nested) MIN_KEYS) = Some (Num 0) \<and>
   to_float demo_lib (first_present (item_adv demo_item_zero_nested) MAX_KEYS) = Some (Num 500) \<and>
   parse_item demo_lib (demo_record None []) demo_item_zero_nested = None \<and>
   extract_offer_items
     (JDict [(''result'', JDict [(''items'', JList [JDict demo_item_zero_nested])])]) =
     [demo_item_zero_nested] \<and>
   parse_raw_fetch demo_lib (demo_record (Some demo_body_zero_min) []) = [] \<and>
   map_option min_fiat (parse_item demo_lib (demo_record None []) demo_item_zero_top) = Some (Num 0)"
proof -
  have adv: "item_adv demo_item_zero_nested =
     [(''price'', JInt 30), (''minAmount'', JInt 0), (''maxAmount'', JInt 500)]"
    by (simp add: item_adv_def demo_item_zero_nested_def dict_get_def py_or_def)
  have p: "to_float demo_lib (first_present (item_adv demo_item_zero_nested) PRICE_KEYS) = Some (Num 30)"
    by (simp add: adv PRICE_KEYS_def)
  have mn: "to_float demo_lib (first_present (item_adv demo_item_zero_nested) MIN_KEYS) = Some (Num 0)"
    by (simp add: adv MIN_KEYS_def)
  have mx: "to_float demo_lib (first_present (item_adv demo_item_zero_nested) MAX_KEYS) = Some (Num 500)"
    by (simp add: adv MAX_KEYS_def)
  have dropped: "parse_item demo_lib (demo_record None []) demo_item_zero_nested = None"
    by code_simp
  have items: "extract_offer_items
     (JDict [(''result'', JDict [(''items'', JList [JDict demo_item_zero_nested])])]) =
     [demo_item_zero_nested]"
    by (simp add: extract_offer_items_def dict_get_def)
  have none: "parse_raw_fetch demo_lib (demo_record (Some demo_body_zero_min) []) = []"
    by code_simp
  have top: "map_option min_fiat (parse_item demo_lib (demo_record None []) demo_item_zero_top) =
               Some (Num 0)"
    by code_simp
  from adv p mn mx dropped items none top show ?thesis by simp
qed

end
